theory Spec2Isabelle
  imports Main "HOL-Library.Word"
begin

unbundle bit_operations_syntax

section \<open>s2n-tls: the pre-shared-key subsystem (tls/s2n\_psk.c)\<close>

text \<open>
  A shallow embedding of \<^verbatim>\<open>tls/s2n_psk.c\<close>. Every C function that returns
  \<^verbatim>\<open>int\<close> or \<^verbatim>\<open>S2N_RESULT\<close> becomes a HOL function returning a value of
  \<open>s2n_error + 'a\<close> (\<open>Inl\<close> is the error that the C code leaves in \<^verbatim>\<open>s2n_errno\<close>)
  together with the new value of every object the C function can write through a pointer.
\<close>

subsection \<open>Bytes, errors\<close>

type_synonym u8 = "8 word"
type_synonym u16 = "16 word"
type_synonym bytes = "u8 list"

text \<open>
  The error codes. Those named in \<^verbatim>\<open>s2n_psk.c\<close> keep their names.

  Modelled from the spec: the checking macros \<^verbatim>\<open>notnull_check\<close>, \<^verbatim>\<open>ENSURE_REF\<close> and
  \<^verbatim>\<open>eq_check\<close> (\<^verbatim>\<open>utils/s2n_safety.h\<close>) are outside this file, and the error each
  raises is the one the specification's taxonomy gives: a failed null check is
  InvalidArgument, a failed \<^verbatim>\<open>eq_check\<close> on a blob size is SizeMismatch
  (\<open>S2N_ERR_SIZE_MISMATCH\<close>). Likewise IntegerOverflow (\<open>S2N_ERR_INTEGER_OVERFLOW\<close>) for
  \<^verbatim>\<open>s2n_add_overflow\<close> and AllocationFailure (\<open>S2N_ERR_ALLOC\<close>) for the allocator.
  \<open>S2N_ERR_SAFETY\<close> is a failed \<^verbatim>\<open>ENSURE_GT\<close>, \<open>S2N_ERR_ARRAY_INDEX_OOB\<close> an index
  outside an array, and \<open>S2N_ERR_CRYPTO n\<close> any other error of the crypto layer.
\<close>

datatype s2n_error =
    S2N_ERR_INVALID_ARGUMENT
  | S2N_ERR_HMAC_INVALID_ALGORITHM
  | S2N_ERR_DUPLICATE_PSK_IDENTITIES
  | S2N_ERR_OFFERED_PSKS_TOO_LONG
  | S2N_ERR_STUFFER_OUT_OF_DATA
  | S2N_ERR_BAD_MESSAGE
  | S2N_ERR_SIZE_MISMATCH
  | S2N_ERR_INTEGER_OVERFLOW
  | S2N_ERR_ALLOC
  | S2N_ERR_SAFETY
  | S2N_ERR_ARRAY_INDEX_OOB
  | S2N_ERR_CRYPTO nat

type_synonym s2n_result = "s2n_error + unit"

abbreviation S2N_SUCCESS :: s2n_result where
  "S2N_SUCCESS \<equiv> Inr ()"

subsection \<open>The byte cursor (s2n\_stuffer) of the offered PSK list\<close>

text \<open>
  Modelled from the spec: the stuffer lives in \<^verbatim>\<open>stuffer/s2n_stuffer.c\<close>, outside this
  file. The specification describes it as a cursor over a read-only wire region whose state
  is a byte offset: \<open>blob\<close> is the region (the bytes written so far) and \<open>read_cursor\<close>
  the offset of the next unread byte. A read of more bytes than are available fails with
  \<^verbatim>\<open>S2N_ERR_STUFFER_OUT_OF_DATA\<close> and moves nothing.
\<close>

record s2n_stuffer =
  blob :: bytes
  read_cursor :: nat

definition s2n_stuffer_data_available :: "s2n_stuffer \<Rightarrow> nat" where
  "s2n_stuffer_data_available stuffer = length (blob stuffer) - read_cursor stuffer"

definition s2n_stuffer_skip_read :: "s2n_stuffer \<Rightarrow> nat \<Rightarrow> s2n_result \<times> s2n_stuffer" where
  "s2n_stuffer_skip_read stuffer n =
     (if s2n_stuffer_data_available stuffer < n then (Inl S2N_ERR_STUFFER_OUT_OF_DATA, stuffer)
      else (S2N_SUCCESS, stuffer\<lparr>read_cursor := read_cursor stuffer + n\<rparr>))"

text \<open>
  \<^verbatim>\<open>s2n_stuffer_raw_read\<close> returns a pointer into the region, or NULL. A pointer into
  the wire region is modelled by its offset from the start of the region.
\<close>

definition s2n_stuffer_raw_read :: "s2n_stuffer \<Rightarrow> nat \<Rightarrow> nat option \<times> s2n_stuffer" where
  "s2n_stuffer_raw_read stuffer data_len =
     (case s2n_stuffer_skip_read stuffer data_len of
        (Inl e, stuffer') \<Rightarrow> (None, stuffer')
      | (Inr u, stuffer') \<Rightarrow> (Some (read_cursor stuffer), stuffer'))"

text \<open>Two bytes in network order.\<close>

definition s2n_stuffer_read_uint16 :: "s2n_stuffer \<Rightarrow> (s2n_error + u16) \<times> s2n_stuffer" where
  "s2n_stuffer_read_uint16 stuffer =
     (case s2n_stuffer_skip_read stuffer 2 of
        (Inl e, stuffer') \<Rightarrow> (Inl e, stuffer')
      | (Inr u, stuffer') \<Rightarrow>
          (Inr (push_bit 8 (ucast (blob stuffer ! read_cursor stuffer))
                OR ucast (blob stuffer ! (read_cursor stuffer + 1))),
           stuffer'))"

definition s2n_stuffer_reread :: "s2n_stuffer \<Rightarrow> s2n_result \<times> s2n_stuffer" where
  "s2n_stuffer_reread stuffer = (S2N_SUCCESS, stuffer\<lparr>read_cursor := 0\<rparr>)"

subsection \<open>The offered PSK list reader\<close>

text \<open>
  \<^verbatim>\<open>struct s2n_offered_psk\<close> holds one blob, \<open>identity\<close>, that borrows a range of the wire
  region: a pointer (\<open>None\<close> is NULL, \<open>Some off\<close> points at offset \<open>off\<close> of the region) and a
  size. \<^verbatim>\<open>struct s2n_offered_psk_list\<close> holds the stuffer \<open>wire_data\<close>.
\<close>

record s2n_blob_ref =
  ref_data :: "nat option"
  ref_size :: nat

record s2n_offered_psk =
  offered_identity :: s2n_blob_ref

record s2n_offered_psk_list =
  wire_data :: s2n_stuffer

text \<open>The value of \<^verbatim>\<open>(struct s2n_offered_psk){ 0 }\<close>.\<close>

definition zero_offered_psk :: s2n_offered_psk where
  "zero_offered_psk = \<lparr>offered_identity = \<lparr>ref_data = None, ref_size = 0\<rparr>\<rparr>"

text \<open>The bytes a borrowed blob denotes in a wire region.\<close>

definition ref_bytes :: "bytes \<Rightarrow> s2n_blob_ref \<Rightarrow> bytes" where
  "ref_bytes region b =
     (case ref_data b of None \<Rightarrow> [] | Some off \<Rightarrow> take (ref_size b) (drop off region))"

definition s2n_offered_psk_list_has_next :: "s2n_offered_psk_list \<Rightarrow> bool" where
  "s2n_offered_psk_list_has_next psk_list
     \<longleftrightarrow> s2n_stuffer_data_available (wire_data psk_list) > 0"

text \<open>
  \<^verbatim>\<open>s2n_offered_psk_list_read_next\<close>: the identity size, the identity (borrowed), four
  bytes of obfuscated ticket age that are skipped. \<^verbatim>\<open>ENSURE_GT\<close> and \<^verbatim>\<open>ENSURE_REF\<close>
  are the two checks on the size and on the pointer; the caller replaces whatever error
  they raise.
\<close>

definition s2n_offered_psk_list_read_next ::
  "s2n_offered_psk_list \<Rightarrow> s2n_offered_psk
     \<Rightarrow> s2n_result \<times> s2n_offered_psk_list \<times> s2n_offered_psk" where
  "s2n_offered_psk_list_read_next psk_list psk =
     (case s2n_stuffer_read_uint16 (wire_data psk_list) of
        (Inl e, st1) \<Rightarrow> (Inl e, psk_list\<lparr>wire_data := st1\<rparr>, psk)
      | (Inr identity_size, st1) \<Rightarrow>
          if \<not> identity_size > 0 then (Inl S2N_ERR_SAFETY, psk_list\<lparr>wire_data := st1\<rparr>, psk)
          else
            (case s2n_stuffer_raw_read st1 (unat identity_size) of
               (None, st2) \<Rightarrow> (Inl S2N_ERR_INVALID_ARGUMENT, psk_list\<lparr>wire_data := st2\<rparr>, psk)
             | (Some identity_data, st2) \<Rightarrow>
                 (case s2n_stuffer_skip_read st2 4 of
                    (Inl e, st3) \<Rightarrow> (Inl e, psk_list\<lparr>wire_data := st3\<rparr>, psk)
                  | (Inr u, st3) \<Rightarrow>
                      (S2N_SUCCESS, psk_list\<lparr>wire_data := st3\<rparr>,
                       psk\<lparr>offered_identity :=
                             \<lparr>ref_data = Some identity_data,
                              ref_size = unat identity_size\<rparr>\<rparr>))))"

definition s2n_offered_psk_list_next ::
  "s2n_offered_psk_list \<Rightarrow> s2n_offered_psk
     \<Rightarrow> s2n_result \<times> s2n_offered_psk_list \<times> s2n_offered_psk" where
  "s2n_offered_psk_list_next psk_list psk =
     (if \<not> s2n_offered_psk_list_has_next psk_list
      then (Inl S2N_ERR_STUFFER_OUT_OF_DATA, psk_list, zero_offered_psk)
      else
        (case s2n_offered_psk_list_read_next psk_list zero_offered_psk of
           (Inl e, psk_list', psk') \<Rightarrow> (Inl S2N_ERR_BAD_MESSAGE, psk_list', psk')
         | (Inr u, psk_list', psk') \<Rightarrow> (S2N_SUCCESS, psk_list', psk')))"

definition s2n_offered_psk_list_reset ::
  "s2n_offered_psk_list \<Rightarrow> s2n_result \<times> s2n_offered_psk_list" where
  "s2n_offered_psk_list_reset psk_list =
     (case s2n_stuffer_reread (wire_data psk_list) of
        (r, st) \<Rightarrow> (r, psk_list\<lparr>wire_data := st\<rparr>))"

text \<open>
  \<^verbatim>\<open>s2n_offered_psk_list_get_index\<close> works on a copy of the list structure (the stuffer
  is copied by value; the wire bytes are shared and only read). The \<^verbatim>\<open>while\<close> loop counts
  in a \<^verbatim>\<open>uint16_t\<close>, so \<open>count + 1\<close> wraps. The loop ends because every successful
  \<^verbatim>\<open>next\<close> consumes bytes of a finite region. The function returns the result, the
  caller's list and the caller's output structure.
\<close>

function s2n_offered_psk_list_get_index_loop ::
  "s2n_offered_psk_list \<Rightarrow> u16 \<Rightarrow> u16 \<Rightarrow> s2n_offered_psk
     \<Rightarrow> s2n_result \<times> s2n_offered_psk_list \<times> s2n_offered_psk" where
  "s2n_offered_psk_list_get_index_loop psk_list_copy count psk_index psk =
     (if count \<le> psk_index then
        (case s2n_offered_psk_list_next psk_list_copy psk of
           (Inl e, psk_list', psk') \<Rightarrow> (Inl e, psk_list', psk')
         | (Inr u, psk_list', psk') \<Rightarrow>
             s2n_offered_psk_list_get_index_loop psk_list' (count + 1) psk_index psk')
      else (S2N_SUCCESS, psk_list_copy, psk))"
  by pat_completeness auto
termination
proof (relation "measure (\<lambda>(l, c, i, p). s2n_stuffer_data_available (wire_data l))")
  show "wf (measure (\<lambda>(l, c, i, p). s2n_stuffer_data_available (wire_data l)))"
    by simp
next
  fix psk_list_copy :: s2n_offered_psk_list and count psk_index :: u16
    and psk :: s2n_offered_psk and x y u l' p'
  assume "(x, y) = s2n_offered_psk_list_next psk_list_copy psk"
    and "x = Inr u" and "(l', p') = y"
  then have "s2n_offered_psk_list_next psk_list_copy psk = (Inr u, l', p')"
    by simp
  then have "s2n_stuffer_data_available (wire_data l')
               < s2n_stuffer_data_available (wire_data psk_list_copy)"
    unfolding s2n_offered_psk_list_next_def s2n_offered_psk_list_read_next_def
      s2n_stuffer_read_uint16_def s2n_stuffer_raw_read_def s2n_stuffer_skip_read_def
      s2n_stuffer_data_available_def s2n_offered_psk_list_has_next_def
    by (auto split: if_splits)
  then show "((l', count + 1, psk_index, p'), psk_list_copy, count, psk_index, psk)
        \<in> measure (\<lambda>(l, c, i, p). s2n_stuffer_data_available (wire_data l))"
    by simp
qed

declare s2n_offered_psk_list_get_index_loop.simps [simp del]

definition s2n_offered_psk_list_get_index ::
  "s2n_offered_psk_list \<Rightarrow> u16 \<Rightarrow> s2n_offered_psk
     \<Rightarrow> s2n_result \<times> s2n_offered_psk_list \<times> s2n_offered_psk" where
  "s2n_offered_psk_list_get_index psk_list psk_index psk =
     (let psk_list_copy = \<lparr>wire_data = wire_data psk_list\<rparr> in
      case s2n_offered_psk_list_reset psk_list_copy of
        (Inl e, psk_list_copy') \<Rightarrow> (Inl e, psk_list, psk)
      | (Inr u, psk_list_copy') \<Rightarrow>
          (case s2n_offered_psk_list_get_index_loop psk_list_copy' 0 psk_index psk of
             (r, psk_list_copy'', psk') \<Rightarrow> (r, psk_list, psk')))"

subsection \<open>Notions used to state the reader's properties\<close>

text \<open>The 16-bit identity length that stands at the cursor, in network order.\<close>

definition declared_identity_size :: "s2n_stuffer \<Rightarrow> nat" where
  "declared_identity_size st =
     unat (push_bit 8 (ucast (blob st ! read_cursor st))
           OR (ucast (blob st ! (read_cursor st + 1)) :: u16))"

text \<open>
  \<open>n\<close> calls of \<^verbatim>\<open>s2n_offered_psk_list_next\<close> one after the other on the same list and
  output structure, as a caller that stops at the first failure makes them.
\<close>

fun sequential_next ::
  "nat \<Rightarrow> s2n_offered_psk_list \<Rightarrow> s2n_offered_psk
     \<Rightarrow> s2n_result \<times> s2n_offered_psk_list \<times> s2n_offered_psk" where
  "sequential_next 0 psk_list psk = (S2N_SUCCESS, psk_list, psk)"
| "sequential_next (Suc n) psk_list psk =
     (case s2n_offered_psk_list_next psk_list psk of
        (Inl e, psk_list', psk') \<Rightarrow> (Inl e, psk_list', psk')
      | (Inr u, psk_list', psk') \<Rightarrow> sequential_next n psk_list' psk')"

subsection \<open>Memory\<close>

text \<open>
  Modelled from the spec: \<^verbatim>\<open>s2n_realloc\<close> (\<^verbatim>\<open>utils/s2n_mem.c\<close>) is outside this
  file. The specification says that storage is reallocated and lists AllocationFailure
  among the errors. The allocator is a counter \<open>mem\<close>: the number of requests it will
  still grant. A request for 0 bytes releases the blob and always succeeds. A granted
  request gives the blob the requested size; bytes beyond the old contents are written by
  every caller before they are read (they are 0 here). A blob that the PSK owns is the
  list of its bytes; its \<^verbatim>\<open>data\<close> pointer is NULL exactly when it is empty.
\<close>

definition s2n_realloc :: "nat \<Rightarrow> bytes \<Rightarrow> nat \<Rightarrow> s2n_result \<times> nat \<times> bytes" where
  "s2n_realloc mem b new_size =
     (if new_size = 0 then (S2N_SUCCESS, mem, [])
      else if mem = 0 then (Inl S2N_ERR_ALLOC, mem, b)
      else (S2N_SUCCESS, mem - 1, take new_size b @ replicate (new_size - length b) 0))"

definition blob_data :: "bytes \<Rightarrow> bytes option" where
  "blob_data b = (if b = [] then None else Some b)"

text \<open>\<^verbatim>\<open>memcpy(dst, src, n)\<close> on a destination of at least \<open>n\<close> bytes.\<close>

definition memcpy :: "bytes \<Rightarrow> bytes \<Rightarrow> nat \<Rightarrow> bytes" where
  "memcpy dst src n = take n src @ drop n dst"

text \<open>
  A callee that fills a blob writes into the blob's storage: the blob keeps its size.
\<close>

definition blob_store :: "bytes \<Rightarrow> bytes \<Rightarrow> bytes" where
  "blob_store b out = take (length b) (out @ drop (length out) b)"

subsection \<open>The PSK entity\<close>

datatype s2n_psk_type = S2N_PSK_TYPE_RESUMPTION | S2N_PSK_TYPE_EXTERNAL

text \<open>
  Modelled from the spec: the enumeration \<^verbatim>\<open>s2n_hmac_algorithm\<close> and the table
  \<^verbatim>\<open>s2n_hmac_digest_size\<close> (\<^verbatim>\<open>crypto/s2n_hmac.h\<close>) are outside this file. The
  specification gives a PSK one of three HMAC algorithms, the three that
  \<^verbatim>\<open>s2n_psk_set_hmac\<close> stores, and the digest size of each is the size of its SHA-2
  digest in bytes (32 for SHA-256). On these three the table cannot fail.
\<close>

datatype s2n_hmac_algorithm = S2N_HMAC_SHA224 | S2N_HMAC_SHA256 | S2N_HMAC_SHA384

fun s2n_hmac_digest_size :: "s2n_hmac_algorithm \<Rightarrow> nat" where
  "s2n_hmac_digest_size S2N_HMAC_SHA224 = 28"
| "s2n_hmac_digest_size S2N_HMAC_SHA256 = 32"
| "s2n_hmac_digest_size S2N_HMAC_SHA384 = 48"

text \<open>
  The early data configuration is opaque to this file; it is kept as a byte string.
\<close>

type_synonym s2n_early_data_config = bytes

record s2n_psk =
  psk_type :: s2n_psk_type
  identity :: bytes
  secret :: bytes
  hmac_alg :: s2n_hmac_algorithm
  early_secret :: bytes
  early_data_config :: s2n_early_data_config

definition s2n_psk_init :: "s2n_psk_type \<Rightarrow> s2n_psk" where
  "s2n_psk_init type =
     \<lparr>psk_type = type, identity = [], secret = [], hmac_alg = S2N_HMAC_SHA256,
      early_secret = [], early_data_config = []\<rparr>"

text \<open>
  \<^verbatim>\<open>s2n_psk_set_identity(psk, identity, identity_size)\<close>: \<open>identity\<close> is the caller's
  buffer (\<open>None\<close> is a NULL pointer), of at least \<open>identity_size\<close> bytes.
  \<^verbatim>\<open>notnull_check\<close> is the null check of the first lines.
\<close>

definition s2n_psk_set_identity ::
  "nat \<Rightarrow> s2n_psk \<Rightarrow> bytes option \<Rightarrow> u16 \<Rightarrow> s2n_result \<times> nat \<times> s2n_psk" where
  "s2n_psk_set_identity mem psk identity_buf identity_size =
     (case identity_buf of
        None \<Rightarrow> (Inl S2N_ERR_INVALID_ARGUMENT, mem, psk)
      | Some src \<Rightarrow>
          if \<not> identity_size \<noteq> 0 then (Inl S2N_ERR_INVALID_ARGUMENT, mem, psk)
          else
            (case s2n_realloc mem (identity psk) (unat identity_size) of
               (Inl e, mem', b) \<Rightarrow> (Inl e, mem', psk\<lparr>identity := b\<rparr>)
             | (Inr u, mem', b) \<Rightarrow>
                 (S2N_SUCCESS, mem', psk\<lparr>identity := memcpy b src (unat identity_size)\<rparr>)))"

definition s2n_psk_set_secret ::
  "nat \<Rightarrow> s2n_psk \<Rightarrow> bytes option \<Rightarrow> u16 \<Rightarrow> s2n_result \<times> nat \<times> s2n_psk" where
  "s2n_psk_set_secret mem psk secret_buf secret_size =
     (case secret_buf of
        None \<Rightarrow> (Inl S2N_ERR_INVALID_ARGUMENT, mem, psk)
      | Some src \<Rightarrow>
          if \<not> secret_size \<noteq> 0 then (Inl S2N_ERR_INVALID_ARGUMENT, mem, psk)
          else
            (case s2n_realloc mem (secret psk) (unat secret_size) of
               (Inl e, mem', b) \<Rightarrow> (Inl e, mem', psk\<lparr>secret := b\<rparr>)
             | (Inr u, mem', b) \<Rightarrow>
                 (S2N_SUCCESS, mem', psk\<lparr>secret := memcpy b src (unat secret_size)\<rparr>)))"

text \<open>
  Modelled from the spec: \<^verbatim>\<open>s2n_early_data_config_clone\<close> (\<^verbatim>\<open>tls/s2n_early_data.c\<close>)
  is outside this file; the specification says that clone deep-copies the early-data
  policy into a fresh allocation.
\<close>

definition s2n_early_data_config_clone ::
  "nat \<Rightarrow> s2n_psk \<Rightarrow> s2n_early_data_config \<Rightarrow> s2n_result \<times> nat \<times> s2n_psk" where
  "s2n_early_data_config_clone mem new_psk old_config =
     (case s2n_realloc mem (early_data_config new_psk) (length old_config) of
        (Inl e, mem', b) \<Rightarrow> (Inl e, mem', new_psk\<lparr>early_data_config := b\<rparr>)
      | (Inr u, mem', b) \<Rightarrow>
          (S2N_SUCCESS, mem',
           new_psk\<lparr>early_data_config := memcpy b old_config (length old_config)\<rparr>))"

text \<open>
  \<^verbatim>\<open>s2n_psk_clone(new_psk, original_psk)\<close> for two PSKs that exist. The sizes of the
  original's blobs are passed to \<^verbatim>\<open>uint16_t\<close> parameters.
\<close>

definition s2n_psk_clone :: "nat \<Rightarrow> s2n_psk \<Rightarrow> s2n_psk \<Rightarrow> s2n_result \<times> nat \<times> s2n_psk" where
  "s2n_psk_clone mem new_psk original_psk =
     (let psk_copy = new_psk;
          new_psk1 = original_psk
            \<lparr>identity := identity psk_copy, secret := secret psk_copy,
             early_secret := early_secret psk_copy,
             early_data_config := early_data_config psk_copy\<rparr>
      in
      case s2n_psk_set_identity mem new_psk1 (blob_data (identity original_psk))
             (word_of_nat (length (identity original_psk))) of
        (Inl e, mem1, new_psk2) \<Rightarrow> (Inl e, mem1, new_psk2)
      | (Inr u, mem1, new_psk2) \<Rightarrow>
          (case s2n_psk_set_secret mem1 new_psk2 (blob_data (secret original_psk))
                  (word_of_nat (length (secret original_psk))) of
             (Inl e, mem2, new_psk3) \<Rightarrow> (Inl e, mem2, new_psk3)
           | (Inr u, mem2, new_psk3) \<Rightarrow>
               (case s2n_realloc mem2 (early_secret new_psk3)
                       (length (early_secret original_psk)) of
                  (Inl e, mem3, b) \<Rightarrow> (Inl e, mem3, new_psk3\<lparr>early_secret := b\<rparr>)
                | (Inr u, mem3, b) \<Rightarrow>
                    s2n_early_data_config_clone mem3
                      (new_psk3\<lparr>early_secret :=
                          memcpy b (early_secret original_psk)
                            (length (early_secret original_psk))\<rparr>)
                      (early_data_config original_psk))))"

subsection \<open>The PSK list of a connection\<close>

text \<open>
  Modelled from the spec: the growable array (\<^verbatim>\<open>utils/s2n_array.c\<close>) is outside this
  file; the specification describes a contiguous sequence with stable append order and
  index access. An array of PSKs is the list of its elements. Reading past the end fails;
  inserting may have to grow the storage, which can fail and then leaves the array as it
  was.
\<close>

definition s2n_array_get :: "'a list \<Rightarrow> nat \<Rightarrow> s2n_error + 'a" where
  "s2n_array_get array idx =
     (if idx < length array then Inr (array ! idx) else Inl S2N_ERR_ARRAY_INDEX_OOB)"

definition s2n_array_insert_and_copy ::
  "nat \<Rightarrow> 'a list \<Rightarrow> nat \<Rightarrow> 'a \<Rightarrow> s2n_result \<times> nat \<times> 'a list" where
  "s2n_array_insert_and_copy mem array idx element =
     (if length array < idx then (Inl S2N_ERR_ARRAY_INDEX_OOB, mem, array)
      else if mem = 0 then (Inl S2N_ERR_ALLOC, mem, array)
      else (S2N_SUCCESS, mem - 1, take idx array @ element # drop idx array))"

record s2n_psk_parameters =
  psk_list :: "s2n_psk list"
  binder_list_size :: nat

datatype s2n_mode = S2N_SERVER | S2N_CLIENT

text \<open>
  Of \<^verbatim>\<open>struct s2n_connection\<close>: the mode, the PSK parameters, and the handshake
  transcript (the bytes hashed so far), which the binder hash starts from.
\<close>

record s2n_connection =
  mode :: s2n_mode
  psk_params :: s2n_psk_parameters
  handshake_transcript :: bytes

definition UINT16_MAX :: nat where
  "UINT16_MAX = 65535"

definition UINT32_MAX :: nat where
  "UINT32_MAX = 4294967295"

text \<open>
  Modelled from the spec: \<^verbatim>\<open>S2N_EXTENSION_HEADER_LENGTH\<close> is a macro of
  \<^verbatim>\<open>tls/extensions/s2n_extension_type.h\<close>, the fixed extension-header length of the
  specification: the 2-byte extension type and the 2-byte extension length.
\<close>

definition S2N_EXTENSION_HEADER_LENGTH :: nat where
  "S2N_EXTENSION_HEADER_LENGTH = 4"

text \<open>
  Modelled from the spec: \<^verbatim>\<open>s2n_add_overflow\<close> (\<^verbatim>\<open>utils/s2n_safety.c\<close>) adds two
  \<^verbatim>\<open>uint32_t\<close> values and fails with IntegerOverflow when the sum does not fit.
\<close>

definition s2n_add_overflow :: "nat \<Rightarrow> nat \<Rightarrow> s2n_error + nat" where
  "s2n_add_overflow a b =
     (if UINT32_MAX < a + b then Inl S2N_ERR_INTEGER_OVERFLOW else Inr (a + b))"

definition s2n_psk_offered_psk_size :: "s2n_psk \<Rightarrow> s2n_error + nat" where
  "s2n_psk_offered_psk_size psk =
     (let size0 = 2 + 4 + 1 in
      case s2n_add_overflow size0 (length (identity psk)) of
        Inl e \<Rightarrow> Inl e
      | Inr size1 \<Rightarrow>
          (let binder_size = s2n_hmac_digest_size (hmac_alg psk) in
           s2n_add_overflow size1 binder_size))"

function s2n_psk_parameters_offered_psks_size_loop ::
  "s2n_psk_parameters \<Rightarrow> nat \<Rightarrow> nat \<Rightarrow> s2n_error + nat" where
  "s2n_psk_parameters_offered_psks_size_loop params i sz =
     (if i < length (psk_list params) then
        (case s2n_array_get (psk_list params) i of
           Inl e \<Rightarrow> Inl e
         | Inr psk \<Rightarrow>
             (case s2n_psk_offered_psk_size psk of
                Inl e \<Rightarrow> Inl e
              | Inr psk_size \<Rightarrow>
                  (case s2n_add_overflow sz psk_size of
                     Inl e \<Rightarrow> Inl e
                   | Inr sz' \<Rightarrow>
                       s2n_psk_parameters_offered_psks_size_loop params (i + 1) sz')))
      else Inr sz)"
  by pat_completeness auto
termination
  by (relation "measure (\<lambda>(params, i, sz). length (psk_list params) - i)") auto

declare s2n_psk_parameters_offered_psks_size_loop.simps [simp del]

definition s2n_psk_parameters_offered_psks_size :: "s2n_psk_parameters \<Rightarrow> s2n_error + nat" where
  "s2n_psk_parameters_offered_psks_size params =
     s2n_psk_parameters_offered_psks_size_loop params 0 (2 + 2)"

text \<open>
  \<^verbatim>\<open>s2n_connection_append_psk\<close>. The first loop looks for an entry with the input's
  identity; \<^verbatim>\<open>memcmp\<close> over the common size compares the bytes.
\<close>

function append_psk_check_duplicates :: "s2n_psk list \<Rightarrow> s2n_psk \<Rightarrow> nat \<Rightarrow> s2n_result" where
  "append_psk_check_duplicates array input_psk j =
     (if j < length array then
        (case s2n_array_get array j of
           Inl e \<Rightarrow> Inl e
         | Inr existing_psk \<Rightarrow>
             (let duplicate =
                    (length (identity existing_psk) = length (identity input_psk)
                     \<and> take (length (identity existing_psk)) (identity existing_psk)
                       = take (length (identity existing_psk)) (identity input_psk))
              in if \<not> \<not> duplicate then Inl S2N_ERR_DUPLICATE_PSK_IDENTITIES
                 else append_psk_check_duplicates array input_psk (j + 1)))
      else S2N_SUCCESS)"
  by pat_completeness auto
termination
  by (relation "measure (\<lambda>(array, input_psk, j). length array - j)") auto

declare append_psk_check_duplicates.simps [simp del]

text \<open>
  The size check of a client: the sum is a sum of \<^verbatim>\<open>uint32_t\<close> values and wraps at
  \<open>2 ^ 32\<close>.
\<close>

definition append_psk_check_size :: "s2n_connection \<Rightarrow> s2n_psk \<Rightarrow> s2n_result" where
  "append_psk_check_size conn input_psk =
     (if mode conn = S2N_CLIENT then
        (case s2n_psk_parameters_offered_psks_size (psk_params conn) of
           Inl e \<Rightarrow> Inl e
         | Inr list_size \<Rightarrow>
             (case s2n_psk_offered_psk_size input_psk of
                Inl e \<Rightarrow> Inl e
              | Inr psk_size \<Rightarrow>
                  if (list_size + psk_size + S2N_EXTENSION_HEADER_LENGTH) mod 2 ^ 32
                       \<le> UINT16_MAX
                  then S2N_SUCCESS else Inl S2N_ERR_OFFERED_PSKS_TOO_LONG))
      else S2N_SUCCESS)"

text \<open>
  The whole function. \<open>new_psk\<close> is a local that starts as zero (its blobs are empty;
  its type and algorithm are overwritten by the clone before they are read); when the
  clone fails it is wiped and dropped, and the error becomes
  \<^verbatim>\<open>S2N_ERR_INVALID_ARGUMENT\<close>. The function returns the result, the allocator and the
  connection.
\<close>

definition zero_psk :: s2n_psk where
  "zero_psk =
     \<lparr>psk_type = S2N_PSK_TYPE_RESUMPTION, identity = [], secret = [],
      hmac_alg = S2N_HMAC_SHA224, early_secret = [], early_data_config = []\<rparr>"

definition s2n_connection_append_psk ::
  "nat \<Rightarrow> s2n_connection \<Rightarrow> s2n_psk \<Rightarrow> s2n_result \<times> nat \<times> s2n_connection" where
  "s2n_connection_append_psk mem conn input_psk =
     (let array = psk_list (psk_params conn) in
      case append_psk_check_duplicates array input_psk 0 of
        Inl e \<Rightarrow> (Inl e, mem, conn)
      | Inr u \<Rightarrow>
          (case append_psk_check_size conn input_psk of
             Inl e \<Rightarrow> (Inl e, mem, conn)
           | Inr u \<Rightarrow>
               (case s2n_psk_clone mem zero_psk input_psk of
                  (Inl e, mem1, new_psk) \<Rightarrow> (Inl S2N_ERR_INVALID_ARGUMENT, mem1, conn)
                | (Inr u, mem1, new_psk) \<Rightarrow>
                    (case s2n_array_insert_and_copy mem1 array (length array) new_psk of
                       (r, mem2, array') \<Rightarrow>
                         (r, mem2,
                          conn\<lparr>psk_params := (psk_params conn)\<lparr>psk_list := array'\<rparr>\<rparr>)))))"

subsection \<open>Binder hash, binder, binder verification\<close>

datatype s2n_hash_algorithm = S2N_HASH_SHA224 | S2N_HASH_SHA256 | S2N_HASH_SHA384

fun s2n_hmac_hash_alg :: "s2n_hmac_algorithm \<Rightarrow> s2n_hash_algorithm" where
  "s2n_hmac_hash_alg S2N_HMAC_SHA224 = S2N_HASH_SHA224"
| "s2n_hmac_hash_alg S2N_HMAC_SHA256 = S2N_HASH_SHA256"
| "s2n_hmac_hash_alg S2N_HMAC_SHA384 = S2N_HASH_SHA384"

text \<open>The content of a \<^verbatim>\<open>struct s2n_hash_state\<close> is opaque to this file.\<close>

type_synonym s2n_hash_state = bytes

text \<open>
  Of \<^verbatim>\<open>struct s2n_tls13_keys\<close>: the HMAC algorithm and the digest size \<^verbatim>\<open>size\<close>.
\<close>

record s2n_tls13_keys =
  keys_hmac_algorithm :: s2n_hmac_algorithm
  keys_size :: nat

text \<open>
  The hash and HMAC primitives, the transcript of the handshake and the TLS 1.3 key
  schedule are outside this file; the specification gives only their call contract. They
  are parameters of the model, each named after the function it stands for, and each may
  fail: whether initialising a key schedule context succeeds; the transcript hash state of
  a connection for a hash algorithm; allocating, copying, updating and finalising a hash
  state (the digest is asked for with the size of the caller's buffer); the derivation of
  the binder key, which takes the key schedule context and the PSK and yields the early
  secret and the binder key; the derivation of the finished key; and HKDF-Extract, the
  HMAC of its last argument under its first.
\<close>

record s2n_crypto =
  keys_init_result :: "s2n_hmac_algorithm \<Rightarrow> s2n_result"
  s2n_handshake_get_hash_state ::
    "s2n_connection \<Rightarrow> s2n_hash_algorithm \<Rightarrow> s2n_error + s2n_hash_state"
  s2n_hash_new :: s2n_result
  s2n_hash_copy :: "s2n_hash_state \<Rightarrow> s2n_error + s2n_hash_state"
  s2n_hash_update :: "s2n_hash_state \<Rightarrow> bytes \<Rightarrow> s2n_error + s2n_hash_state"
  s2n_hash_digest :: "s2n_hash_state \<Rightarrow> nat \<Rightarrow> s2n_error + bytes"
  s2n_tls13_derive_binder_key :: "s2n_tls13_keys \<Rightarrow> s2n_psk \<Rightarrow> s2n_error + bytes \<times> bytes"
  s2n_tls13_derive_finished_key :: "s2n_tls13_keys \<Rightarrow> bytes \<Rightarrow> s2n_error + bytes"
  s2n_hkdf_extract :: "s2n_hmac_algorithm \<Rightarrow> bytes \<Rightarrow> bytes \<Rightarrow> s2n_error + bytes"

text \<open>
  Modelled from the spec: \<^verbatim>\<open>s2n_tls13_keys_init\<close> (\<^verbatim>\<open>crypto/s2n_tls13_keys.c\<close>)
  initialises a key schedule context keyed by the HMAC algorithm, with the digest size of
  the algorithm.
\<close>

definition s2n_tls13_keys_init ::
  "s2n_crypto \<Rightarrow> s2n_hmac_algorithm \<Rightarrow> s2n_error + s2n_tls13_keys" where
  "s2n_tls13_keys_init cr alg =
     (case keys_init_result cr alg of
        Inl e \<Rightarrow> Inl e
      | Inr u \<Rightarrow>
          Inr \<lparr>keys_hmac_algorithm = alg, keys_size = s2n_hmac_digest_size alg\<rparr>)"

text \<open>
  \<^verbatim>\<open>s2n_tls13_key_blob(name, bytes)\<close> declares a zeroed stack buffer and a blob of
  \<open>bytes\<close> bytes over it.
\<close>

definition s2n_tls13_key_blob :: "nat \<Rightarrow> bytes" where
  "s2n_tls13_key_blob n = replicate n 0"

text \<open>
  \<^verbatim>\<open>s2n_psk_calculate_binder_hash\<close>: a copy of the transcript hash state of the
  connection absorbs the partial ClientHello and is finalised into
  \<open>output_binder_hash\<close>; the result is the new content of that blob.
\<close>

definition s2n_psk_calculate_binder_hash ::
  "s2n_crypto \<Rightarrow> s2n_connection \<Rightarrow> s2n_hmac_algorithm \<Rightarrow> bytes \<Rightarrow> bytes
     \<Rightarrow> s2n_error + bytes" where
  "s2n_psk_calculate_binder_hash cr conn hmac_alg' partial_client_hello output_binder_hash =
     (let hash_alg = s2n_hmac_hash_alg hmac_alg' in
      case s2n_handshake_get_hash_state cr conn hash_alg of
        Inl e \<Rightarrow> Inl e
      | Inr current_hash_state \<Rightarrow>
          (case s2n_hash_new cr of
             Inl e \<Rightarrow> Inl e
           | Inr u \<Rightarrow>
               (case s2n_hash_copy cr current_hash_state of
                  Inl e \<Rightarrow> Inl e
                | Inr hash_copy \<Rightarrow>
                    (case s2n_hash_update cr hash_copy partial_client_hello of
                       Inl e \<Rightarrow> Inl e
                     | Inr hash_copy' \<Rightarrow>
                         (case s2n_hash_digest cr hash_copy' (length output_binder_hash) of
                            Inl e \<Rightarrow> Inl e
                          | Inr digest \<Rightarrow> Inr (blob_store output_binder_hash digest))))))"

text \<open>
  \<^verbatim>\<open>s2n_psk_calculate_binder\<close>. \<^verbatim>\<open>eq_check\<close> compares the two blob sizes with the
  digest size; the early secret is kept on the PSK. The function returns the result,
  the allocator, the PSK and the content of \<open>output_binder\<close>.
\<close>

definition s2n_psk_calculate_binder ::
  "s2n_crypto \<Rightarrow> nat \<Rightarrow> s2n_psk \<Rightarrow> bytes \<Rightarrow> bytes
     \<Rightarrow> s2n_result \<times> nat \<times> s2n_psk \<times> bytes" where
  "s2n_psk_calculate_binder cr mem psk binder_hash output_binder =
     (case s2n_tls13_keys_init cr (hmac_alg psk) of
        Inl e \<Rightarrow> (Inl e, mem, psk, output_binder)
      | Inr psk_keys \<Rightarrow>
          if \<not> length binder_hash = keys_size psk_keys
          then (Inl S2N_ERR_SIZE_MISMATCH, mem, psk, output_binder)
          else if \<not> length output_binder = keys_size psk_keys
          then (Inl S2N_ERR_SIZE_MISMATCH, mem, psk, output_binder)
          else
            (case s2n_realloc mem (early_secret psk) (keys_size psk_keys) of
               (Inl e, mem', b) \<Rightarrow> (Inl e, mem', psk\<lparr>early_secret := b\<rparr>, output_binder)
             | (Inr u, mem', b) \<Rightarrow>
                 (let psk1 = psk\<lparr>early_secret := b\<rparr> in
                  case s2n_tls13_derive_binder_key cr psk_keys psk1 of
                    Inl e \<Rightarrow> (Inl e, mem', psk1, output_binder)
                  | Inr (extract_secret, binder_key) \<Rightarrow>
                      (let psk2 = psk1\<lparr>early_secret :=
                                         blob_store (early_secret psk1) extract_secret\<rparr>
                       in
                       case s2n_tls13_derive_finished_key cr psk_keys binder_key of
                         Inl e \<Rightarrow> (Inl e, mem', psk2, output_binder)
                       | Inr finished_key \<Rightarrow>
                           (case s2n_hkdf_extract cr (keys_hmac_algorithm psk_keys)
                                   finished_key binder_hash of
                              Inl e \<Rightarrow> (Inl e, mem', psk2, output_binder)
                            | Inr digest \<Rightarrow>
                                (S2N_SUCCESS, mem', psk2,
                                 blob_store output_binder digest))))))"

text \<open>
  Modelled from the spec: \<^verbatim>\<open>s2n_tls13_mac_verify\<close> (\<^verbatim>\<open>crypto/s2n_tls13_keys.c\<close>)
  and the comparison it calls. If the lengths differ it fails at once; otherwise it
  compares with a constant-time equality routine over the digest size, and a mismatch
  fails with BadMessage. Only the result of the comparison is modelled, not its time.
\<close>

definition s2n_constant_time_equals :: "bytes \<Rightarrow> bytes \<Rightarrow> nat \<Rightarrow> bool" where
  "s2n_constant_time_equals a b len \<longleftrightarrow> take len a = take len b"

definition s2n_tls13_mac_verify :: "s2n_tls13_keys \<Rightarrow> bytes \<Rightarrow> bytes \<Rightarrow> s2n_result" where
  "s2n_tls13_mac_verify keys finished_verify wire_verify =
     (if \<not> length wire_verify = keys_size keys then Inl S2N_ERR_SIZE_MISMATCH
      else if \<not> s2n_constant_time_equals finished_verify wire_verify (keys_size keys)
      then Inl S2N_ERR_BAD_MESSAGE
      else S2N_SUCCESS)"

text \<open>
  \<^verbatim>\<open>s2n_psk_verify_binder\<close>. It returns the result, the allocator and the PSK.
\<close>

definition s2n_psk_verify_binder ::
  "s2n_crypto \<Rightarrow> nat \<Rightarrow> s2n_connection \<Rightarrow> s2n_psk \<Rightarrow> bytes \<Rightarrow> bytes
     \<Rightarrow> s2n_result \<times> nat \<times> s2n_psk" where
  "s2n_psk_verify_binder cr mem conn psk partial_client_hello binder_to_verify =
     (case s2n_tls13_keys_init cr (hmac_alg psk) of
        Inl e \<Rightarrow> (Inl e, mem, psk)
      | Inr psk_keys \<Rightarrow>
          if \<not> length binder_to_verify = keys_size psk_keys
          then (Inl S2N_ERR_SIZE_MISMATCH, mem, psk)
          else
            (case s2n_psk_calculate_binder_hash cr conn (hmac_alg psk) partial_client_hello
                    (s2n_tls13_key_blob (keys_size psk_keys)) of
               Inl e \<Rightarrow> (Inl e, mem, psk)
             | Inr binder_hash \<Rightarrow>
                 (case s2n_psk_calculate_binder cr mem psk binder_hash
                         (s2n_tls13_key_blob (keys_size psk_keys)) of
                    (Inl e, mem', psk', expected_binder) \<Rightarrow> (Inl e, mem', psk')
                  | (Inr u, mem', psk', expected_binder) \<Rightarrow>
                      (case s2n_tls13_mac_verify psk_keys expected_binder binder_to_verify of
                         Inl e \<Rightarrow> (Inl e, mem', psk')
                       | Inr u \<Rightarrow> (S2N_SUCCESS, mem', psk')))))"

subsection \<open>The size formula of the specification\<close>

text \<open>
  The closed form that the specification gives for the serialized size of the offered
  PSKs: per entry, 2 bytes of identity length, the identity, 4 bytes of obfuscated ticket
  age, 1 byte of binder length and the binder (a digest of the entry's HMAC algorithm);
  for the list, the two 2-byte length prefixes and the entries.
\<close>

definition offered_psk_size_spec :: "s2n_psk \<Rightarrow> nat" where
  "offered_psk_size_spec psk =
     2 + length (identity psk) + 4 + 1 + s2n_hmac_digest_size (hmac_alg psk)"

definition offered_psks_size_spec :: "s2n_psk list \<Rightarrow> nat" where
  "offered_psks_size_spec psks = 2 + 2 + (\<Sum>psk\<leftarrow>psks. offered_psk_size_spec psk)"

text \<open>
  The size that the extension would have with the input PSK appended, extension header
  included, as the specification's size guard counts it.
\<close>

definition prospective_size :: "s2n_connection \<Rightarrow> s2n_psk \<Rightarrow> nat" where
  "prospective_size conn input_psk =
     offered_psks_size_spec (psk_list (psk_params conn)) + offered_psk_size_spec input_psk
       + S2N_EXTENSION_HEADER_LENGTH"

text \<open>
  A PSK whose identity and secret have been set (\<^verbatim>\<open>s2n_psk_set_identity\<close> and
  \<^verbatim>\<open>s2n_psk_set_secret\<close> take a \<^verbatim>\<open>uint16_t\<close> size): what \<^verbatim>\<open>s2n_psk_clone\<close> can copy.
\<close>

definition cloneable :: "s2n_psk \<Rightarrow> bool" where
  "cloneable psk \<longleftrightarrow>
     0 < length (identity psk) \<and> length (identity psk) \<le> UINT16_MAX
     \<and> 0 < length (secret psk) \<and> length (secret psk) \<le> UINT16_MAX"

text \<open>A binder with bit \<open>k\<close> of byte \<open>i\<close> flipped.\<close>

definition flip_bit :: "bytes \<Rightarrow> nat \<Rightarrow> nat \<Rightarrow> bytes" where
  "flip_bit b i k = b[i := (b ! i) XOR push_bit k 1]"

subsection \<open>Example values\<close>

text \<open>
  A wire region with two identities, \<open>A\<close> (one byte) and \<open>BC\<close> (two bytes), each followed
  by an obfuscated ticket age, and a reader of a region at a cursor position.
\<close>

definition example_wire :: bytes where
  "example_wire = [0, 1, 0x41, 0, 0, 0, 0,  0, 2, 0x42, 0x43, 0, 0, 0, 0]"

definition example_reader :: "bytes \<Rightarrow> nat \<Rightarrow> s2n_offered_psk_list" where
  "example_reader region pos = \<lparr>wire_data = \<lparr>blob = region, read_cursor = pos\<rparr>\<rparr>"

text \<open>Two PSKs with identities \<open>A\<close> and \<open>BC\<close>.\<close>

definition example_psk_a :: s2n_psk where
  "example_psk_a =
     \<lparr>psk_type = S2N_PSK_TYPE_EXTERNAL, identity = [0x41], secret = [1, 2, 3],
      hmac_alg = S2N_HMAC_SHA256, early_secret = [], early_data_config = []\<rparr>"

definition example_psk_bc :: s2n_psk where
  "example_psk_bc =
     \<lparr>psk_type = S2N_PSK_TYPE_EXTERNAL, identity = [0x42, 0x43], secret = [4, 5],
      hmac_alg = S2N_HMAC_SHA384, early_secret = [], early_data_config = []\<rparr>"

definition example_conn :: "s2n_mode \<Rightarrow> s2n_psk list \<Rightarrow> s2n_connection" where
  "example_conn m psks =
     \<lparr>mode = m, psk_params = \<lparr>psk_list = psks, binder_list_size = 0\<rparr>,
      handshake_transcript = []\<rparr>"

text \<open>
  A PSK with an identity of 40000 bytes, and a PSK whose secret was never set.
\<close>

definition example_psk_long :: s2n_psk where
  "example_psk_long = example_psk_a\<lparr>identity := replicate 40000 0x41\<rparr>"

definition example_psk_no_secret :: s2n_psk where
  "example_psk_no_secret = (s2n_psk_init S2N_PSK_TYPE_EXTERNAL)\<lparr>identity := replicate 40000 0x41\<rparr>"

text \<open>
  An instance of the crypto parameters, to run the binder functions on: nothing fails,
  a hash state is the bytes absorbed so far, its digest is their number repeated, and
  HKDF-Extract is the bytewise XOR of key and message.
\<close>

definition example_crypto :: s2n_crypto where
  "example_crypto =
     \<lparr>keys_init_result = (\<lambda>alg. S2N_SUCCESS),
      s2n_handshake_get_hash_state = (\<lambda>conn alg. Inr (handshake_transcript conn)),
      s2n_hash_new = S2N_SUCCESS,
      s2n_hash_copy = (\<lambda>st. Inr st),
      s2n_hash_update = (\<lambda>st d. Inr (st @ d)),
      s2n_hash_digest = (\<lambda>st n. Inr (replicate n (word_of_nat (length st)))),
      s2n_tls13_derive_binder_key =
        (\<lambda>keys psk. Inr (replicate (keys_size keys) 1, replicate (keys_size keys) 2)),
      s2n_tls13_derive_finished_key = (\<lambda>keys k. Inr (map (\<lambda>b. b + 1) k)),
      s2n_hkdf_extract = (\<lambda>alg salt key. Inr (map2 (XOR) salt key))\<rparr>"

section \<open>Properties\<close>

subsection \<open>The offered PSK list reader\<close>

text \<open>What one call of \<^verbatim>\<open>s2n_offered_psk_list_next\<close> does, by the bytes available.\<close>

lemma next_eq:
  "s2n_offered_psk_list_next l p =
     (let st = wire_data l; avail = s2n_stuffer_data_available st;
          n = declared_identity_size st in
      if avail = 0 then (Inl S2N_ERR_STUFFER_OUT_OF_DATA, l, zero_offered_psk)
      else if avail < 2 then (Inl S2N_ERR_BAD_MESSAGE, l, zero_offered_psk)
      else if n = 0 \<or> avail < 2 + n then
        (Inl S2N_ERR_BAD_MESSAGE,
         l\<lparr>wire_data := st\<lparr>read_cursor := read_cursor st + 2\<rparr>\<rparr>, zero_offered_psk)
      else if avail < 2 + n + 4 then
        (Inl S2N_ERR_BAD_MESSAGE,
         l\<lparr>wire_data := st\<lparr>read_cursor := read_cursor st + 2 + n\<rparr>\<rparr>, zero_offered_psk)
      else
        (S2N_SUCCESS, l\<lparr>wire_data := st\<lparr>read_cursor := read_cursor st + 2 + n + 4\<rparr>\<rparr>,
         \<lparr>offered_identity = \<lparr>ref_data = Some (read_cursor st + 2), ref_size = n\<rparr>\<rparr>))"
  unfolding s2n_offered_psk_list_next_def s2n_offered_psk_list_read_next_def
    s2n_stuffer_read_uint16_def s2n_stuffer_raw_read_def s2n_stuffer_skip_read_def
    s2n_stuffer_data_available_def s2n_offered_psk_list_has_next_def
    declared_identity_size_def Let_def zero_offered_psk_def
  by (auto simp: word_greater_zero_iff unat_eq_0)

lemma next_consumes:
  "s2n_offered_psk_list_next l p = (Inr u, l', p') \<Longrightarrow>
     s2n_stuffer_data_available (wire_data l') + 7 \<le> s2n_stuffer_data_available (wire_data l)"
  unfolding next_eq Let_def s2n_stuffer_data_available_def
  by (auto split: if_splits)

lemma sequential_next_consumes:
  "sequential_next n l p = (Inr u, l', p') \<Longrightarrow>
     7 * n \<le> s2n_stuffer_data_available (wire_data l)"
proof (induction n arbitrary: l p)
  case 0
  then show ?case by simp
next
  case (Suc n)
  obtain r l1 p1 where nx: "s2n_offered_psk_list_next l p = (r, l1, p1)"
    by (cases "s2n_offered_psk_list_next l p") auto
  with Suc.prems obtain v where r: "r = Inr v"
    by (cases r) auto
  with nx Suc.prems have "sequential_next n l1 p1 = (Inr u, l', p')"
    by simp
  then have "7 * n \<le> s2n_stuffer_data_available (wire_data l1)"
    by (rule Suc.IH)
  moreover from nx r have "s2n_stuffer_data_available (wire_data l1) + 7
       \<le> s2n_stuffer_data_available (wire_data l)"
    by (auto dest: next_consumes)
  ultimately show ?case by simp
qed

text \<open>Below index 65535 the 16-bit counter does not wrap: the loop is \<open>index + 1\<close> calls.\<close>

lemma loop_sequential:
  "unat count + k = Suc (unat psk_index) \<Longrightarrow> unat psk_index < 65535 \<Longrightarrow>
     s2n_offered_psk_list_get_index_loop l count psk_index p = sequential_next k l p"
proof (induction k arbitrary: l count p)
  case 0
  then have "\<not> count \<le> psk_index"
    by (simp add: word_le_nat_alt)
  then show ?case
    by (subst s2n_offered_psk_list_get_index_loop.simps) simp
next
  case (Suc k)
  then have le: "count \<le> psk_index"
    by (simp add: word_le_nat_alt)
  from Suc.prems have "unat count < 65535" by simp
  then have "unat (count + 1) = Suc (unat count)"
    by (simp add: unat_word_ariths)
  with Suc.prems have step: "unat (count + 1) + k = Suc (unat psk_index)"
    by simp
  show ?case
    apply (subst s2n_offered_psk_list_get_index_loop.simps)
    using le Suc.IH [OF step Suc.prems(2)]
    by (simp split: prod.splits sum.splits)
qed

text \<open>
  At index 65535 the counter never passes the index, and the loop runs until a call fails.
\<close>

lemma loop_max_index:
  "sequential_next k l p = (Inl e, l', p') \<Longrightarrow>
     s2n_offered_psk_list_get_index_loop l count (- 1) p = (Inl e, l', p')"
proof (induction k arbitrary: l count p)
  case 0
  then show ?case by simp
next
  case (Suc k)
  show ?case
    apply (subst s2n_offered_psk_list_get_index_loop.simps)
    using Suc.prems Suc.IH
    by (auto split: prod.splits sum.splits)
qed

text \<open>The reader on the example region.\<close>

lemma example_next_0:
  "s2n_offered_psk_list_next (example_reader example_wire 0) p
     = (S2N_SUCCESS, example_reader example_wire 7,
        \<lparr>offered_identity = \<lparr>ref_data = Some 2, ref_size = 1\<rparr>\<rparr>)"
  by (simp add: next_eq example_reader_def example_wire_def s2n_stuffer_data_available_def
      declared_identity_size_def)

lemma example_next_7:
  "s2n_offered_psk_list_next (example_reader example_wire 7) p
     = (S2N_SUCCESS, example_reader example_wire 15,
        \<lparr>offered_identity = \<lparr>ref_data = Some 9, ref_size = 2\<rparr>\<rparr>)"
  by (simp add: next_eq example_reader_def example_wire_def s2n_stuffer_data_available_def
      declared_identity_size_def)

lemma example_next_15:
  "s2n_offered_psk_list_next (example_reader example_wire 15) p
     = (Inl S2N_ERR_STUFFER_OUT_OF_DATA, example_reader example_wire 15, zero_offered_psk)"
  by (simp add: next_eq example_reader_def example_wire_def s2n_stuffer_data_available_def)

lemma example_reset:
  "snd (s2n_offered_psk_list_reset (example_reader example_wire 7))
     = example_reader example_wire 0"
  by (simp add: s2n_offered_psk_list_reset_def s2n_stuffer_reread_def example_reader_def)

text \<open>
  Claim C8. One call of \<^verbatim>\<open>s2n_offered_psk_list_next\<close>, where \<open>avail\<close> is the number of
  unread bytes and \<open>n\<close> the 16-bit identity length that stands at the cursor: with no
  byte left the call fails with \<^verbatim>\<open>S2N_ERR_STUFFER_OUT_OF_DATA\<close>; with bytes left it fails
  with \<^verbatim>\<open>S2N_ERR_BAD_MESSAGE\<close> when the length field is cut short, when \<open>n\<close> is 0, or
  when fewer than \<open>n + 4\<close> bytes follow the length field; otherwise it succeeds, the
  output borrows exactly the \<open>n\<close> identity bytes after the length field, and the cursor
  stands after the four bytes of obfuscated ticket age, whose value is never looked at.
\<close>

theorem s2n_offered_psk_list_next_outcomes:
  fixes offered :: s2n_offered_psk_list and psk :: s2n_offered_psk
  defines "st \<equiv> wire_data offered"
  defines "avail \<equiv> s2n_stuffer_data_available st"
  defines "n \<equiv> declared_identity_size st"
  defines "r \<equiv> s2n_offered_psk_list_next offered psk"
  shows "(avail = 0 \<longrightarrow> fst r = Inl S2N_ERR_STUFFER_OUT_OF_DATA)
       \<and> (0 < avail \<and> (avail < 2 \<or> n = 0 \<or> avail - 2 < n + 4) \<longrightarrow> fst r = Inl S2N_ERR_BAD_MESSAGE)
       \<and> (2 \<le> avail \<and> 0 < n \<and> n + 4 \<le> avail - 2 \<longrightarrow>
            r = (S2N_SUCCESS,
                 offered\<lparr>wire_data := st\<lparr>read_cursor := read_cursor st + 2 + n + 4\<rparr>\<rparr>,
                 \<lparr>offered_identity = \<lparr>ref_data = Some (read_cursor st + 2), ref_size = n\<rparr>\<rparr>)
          \<and> ref_bytes (blob st) (offered_identity (snd (snd r)))
               = take n (drop (read_cursor st + 2) (blob st))
          \<and> length (ref_bytes (blob st) (offered_identity (snd (snd r)))) = n)"
  unfolding r_def next_eq Let_def avail_def n_def st_def ref_bytes_def s2n_stuffer_data_available_def
  by auto

text \<open>
  The four cases of claim C8 on concrete regions: no byte left; a length of 0; an identity
  cut short; and the second entry of the example region.
\<close>

theorem s2n_offered_psk_list_next_outcomes_witness:
  "fst (s2n_offered_psk_list_next (example_reader example_wire 15) zero_offered_psk)
     = Inl S2N_ERR_STUFFER_OUT_OF_DATA
   \<and> fst (s2n_offered_psk_list_next (example_reader [0, 0, 0, 0, 0, 0] 0) zero_offered_psk)
     = Inl S2N_ERR_BAD_MESSAGE
   \<and> fst (s2n_offered_psk_list_next (example_reader [0, 5, 1, 2, 3, 4, 5, 0, 0, 0] 0)
            zero_offered_psk)
     = Inl S2N_ERR_BAD_MESSAGE
   \<and> s2n_offered_psk_list_next (example_reader example_wire 7) zero_offered_psk
     = (S2N_SUCCESS, example_reader example_wire 15,
        \<lparr>offered_identity = \<lparr>ref_data = Some 9, ref_size = 2\<rparr>\<rparr>)
   \<and> ref_bytes example_wire \<lparr>ref_data = Some 9, ref_size = 2\<rparr> = [0x42, 0x43]"
  using s2n_offered_psk_list_next_outcomes [of "example_reader example_wire 15" zero_offered_psk]
    s2n_offered_psk_list_next_outcomes [of "example_reader [0, 0, 0, 0, 0, 0] 0" zero_offered_psk]
    s2n_offered_psk_list_next_outcomes
      [of "example_reader [0, 5, 1, 2, 3, 4, 5, 0, 0, 0] 0" zero_offered_psk]
    s2n_offered_psk_list_next_outcomes [of "example_reader example_wire 7" zero_offered_psk]
  by (simp add: example_reader_def example_wire_def s2n_stuffer_data_available_def
      declared_identity_size_def ref_bytes_def)

text \<open>
  Claim C9. For a wire region that fits the 16-bit length prefix of the identity list,
  \<^verbatim>\<open>s2n_offered_psk_list_get_index\<close> with index \<open>i\<close> returns what \<open>i + 1\<close> calls of
  \<^verbatim>\<open>s2n_offered_psk_list_next\<close> from a reset cursor return (the result of the last call,
  or the first failure), and the caller's list, cursor included, is what it was.
\<close>

theorem s2n_offered_psk_list_get_index_sequential:
  assumes "length (blob (wire_data offered)) \<le> 65535"
  shows "s2n_offered_psk_list_get_index offered psk_index psk =
          (case sequential_next (Suc (unat psk_index))
                  (snd (s2n_offered_psk_list_reset offered)) psk of
             (r, offered', psk') \<Rightarrow> (r, offered, psk'))
       \<and> fst (snd (s2n_offered_psk_list_get_index offered psk_index psk)) = offered"
proof -
  define l0 where "l0 = snd (s2n_offered_psk_list_reset offered)"
  have l0: "l0 = offered\<lparr>wire_data := (wire_data offered)\<lparr>read_cursor := 0\<rparr>\<rparr>"
    by (simp add: l0_def s2n_offered_psk_list_reset_def s2n_stuffer_reread_def)
  have copy: "\<lparr>wire_data = wire_data offered\<lparr>read_cursor := 0\<rparr>\<rparr> = l0"
    unfolding l0 by (cases offered) simp
  have gi: "s2n_offered_psk_list_get_index offered psk_index psk =
          (case s2n_offered_psk_list_get_index_loop l0 0 psk_index psk of
             (r, offered', psk') \<Rightarrow> (r, offered, psk'))"
    by (simp add: s2n_offered_psk_list_get_index_def copy s2n_offered_psk_list_reset_def
        s2n_stuffer_reread_def)
  have loop: "s2n_offered_psk_list_get_index_loop l0 0 psk_index psk
                = sequential_next (Suc (unat psk_index)) l0 psk"
  proof (cases "unat psk_index < 65535")
    case True
    then show ?thesis
      by (intro loop_sequential) simp_all
  next
    case False
    have "unat psk_index < 2 ^ LENGTH(16)"
      by (rule unsigned_less)
    with False have top: "unat psk_index = 65535" by simp
    have "psk_index = word_of_nat (unat psk_index)" by simp
    also have "\<dots> = - 1" unfolding top by simp
    finally have idx: "psk_index = - 1" .
    obtain r l' p' where sq: "sequential_next (Suc (unat psk_index)) l0 psk = (r, l', p')"
      by (cases "sequential_next (Suc (unat psk_index)) l0 psk") auto
    have "\<exists>e. r = Inl e"
    proof (cases r)
      case (Inr u)
      with sq have "sequential_next (Suc (unat psk_index)) l0 psk = (Inr u, l', p')"
        by (simp del: sequential_next.simps)
      then have "7 * Suc (unat psk_index) \<le> s2n_stuffer_data_available (wire_data l0)"
        by (rule sequential_next_consumes)
      with assms top show ?thesis
        by (simp add: l0 s2n_stuffer_data_available_def)
    qed simp
    then obtain e where "r = Inl e" ..
    with sq have sqe: "sequential_next (Suc (unat psk_index)) l0 psk = (Inl e, l', p')"
      by (simp del: sequential_next.simps)
    then have "s2n_offered_psk_list_get_index_loop l0 0 (- 1) psk = (Inl e, l', p')"
      by (rule loop_max_index)
    with idx sqe show ?thesis by (simp del: sequential_next.simps)
  qed
  show ?thesis
    unfolding gi loop l0_def [symmetric]
    by (simp split: prod.splits)
qed

text \<open>
  Claim C9 on the example region, with the caller's cursor at the second entry: index 1 is
  the second identity, index 2 is past the end, and the caller's cursor stays at 7.
\<close>

theorem s2n_offered_psk_list_get_index_sequential_witness:
  "length (blob (wire_data (example_reader example_wire 7))) \<le> 65535
   \<and> s2n_offered_psk_list_get_index (example_reader example_wire 7) 1 zero_offered_psk
     = (S2N_SUCCESS, example_reader example_wire 7,
        \<lparr>offered_identity = \<lparr>ref_data = Some 9, ref_size = 2\<rparr>\<rparr>)
   \<and> s2n_offered_psk_list_get_index (example_reader example_wire 7) 2 zero_offered_psk
     = (Inl S2N_ERR_STUFFER_OUT_OF_DATA, example_reader example_wire 7, zero_offered_psk)"
proof -
  have len: "length (blob (wire_data (example_reader example_wire 7))) \<le> 65535"
    by (simp add: example_reader_def example_wire_def)
  have n1: "Suc (unat (1 :: u16)) = Suc (Suc 0)"
    and n2: "Suc (unat (2 :: u16)) = Suc (Suc (Suc 0))"
    by simp_all
  show ?thesis
    using len s2n_offered_psk_list_get_index_sequential [OF len, of 1 zero_offered_psk]
      s2n_offered_psk_list_get_index_sequential [OF len, of 2 zero_offered_psk]
    unfolding n1 n2 example_reset
    by (simp add: example_next_0 example_next_7 example_next_15)
qed

text \<open>
  Claim C10. \<^verbatim>\<open>s2n_offered_psk_list_next\<close> overwrites the output structure with zero
  before anything else: its result does not depend on what the output structure held, and
  whenever it fails (with \<^verbatim>\<open>S2N_ERR_STUFFER_OUT_OF_DATA\<close> or \<^verbatim>\<open>S2N_ERR_BAD_MESSAGE\<close>, the
  only two errors it returns) the output is the zero structure: a NULL identity pointer
  and size 0.
\<close>

theorem s2n_offered_psk_list_next_zeroes_output:
  "s2n_offered_psk_list_next offered psk = s2n_offered_psk_list_next offered zero_offered_psk
   \<and> (fst (s2n_offered_psk_list_next offered psk) \<noteq> S2N_SUCCESS \<longrightarrow>
        fst (s2n_offered_psk_list_next offered psk) \<in> {Inl S2N_ERR_STUFFER_OUT_OF_DATA, Inl S2N_ERR_BAD_MESSAGE}
      \<and> snd (snd (s2n_offered_psk_list_next offered psk)) = zero_offered_psk
      \<and> ref_data (offered_identity (snd (snd (s2n_offered_psk_list_next offered psk)))) = None
      \<and> ref_size (offered_identity (snd (snd (s2n_offered_psk_list_next offered psk)))) = 0)"
  unfolding next_eq Let_def zero_offered_psk_def
  by auto


text \<open>
  Claim C10 on an entry that is cut short, with an output structure that still holds the
  range of an earlier call.
\<close>

theorem s2n_offered_psk_list_next_zeroes_output_witness:
  "fst (s2n_offered_psk_list_next (example_reader [0, 5, 1, 2, 3, 4, 5, 0, 0, 0] 0)
          \<lparr>offered_identity = \<lparr>ref_data = Some 2, ref_size = 1\<rparr>\<rparr>) \<noteq> S2N_SUCCESS
   \<and> snd (snd (s2n_offered_psk_list_next (example_reader [0, 5, 1, 2, 3, 4, 5, 0, 0, 0] 0)
          \<lparr>offered_identity = \<lparr>ref_data = Some 2, ref_size = 1\<rparr>\<rparr>)) = zero_offered_psk"
  using s2n_offered_psk_list_next_zeroes_output
      [of "example_reader [0, 5, 1, 2, 3, 4, 5, 0, 0, 0] 0"
          "\<lparr>offered_identity = \<lparr>ref_data = Some 2, ref_size = 1\<rparr>\<rparr>"]
    next_eq [of "example_reader [0, 5, 1, 2, 3, 4, 5, 0, 0, 0] 0" zero_offered_psk]
  by (simp add: example_reader_def s2n_stuffer_data_available_def declared_identity_size_def)

subsection \<open>The PSK entity\<close>

lemma realloc_ok:
  "0 < mem \<Longrightarrow> 0 < n \<Longrightarrow>
     s2n_realloc mem b n = (S2N_SUCCESS, mem - 1, take n b @ replicate (n - length b) 0)"
  by (simp add: s2n_realloc_def)

lemma memcpy_full:
  "n \<le> length src \<Longrightarrow> memcpy (take n b @ replicate (n - length b) 0) src n = take n src"
  by (simp add: memcpy_def)

lemma set_identity_ok:
  "n \<noteq> 0 \<Longrightarrow> unat n \<le> length src \<Longrightarrow> 0 < mem \<Longrightarrow>
     s2n_psk_set_identity mem psk (Some src) n
       = (S2N_SUCCESS, mem - 1, psk\<lparr>identity := take (unat n) src\<rparr>)"
  by (simp add: s2n_psk_set_identity_def realloc_ok memcpy_full unat_gt_0)

lemma set_secret_ok:
  "n \<noteq> 0 \<Longrightarrow> unat n \<le> length src \<Longrightarrow> 0 < mem \<Longrightarrow>
     s2n_psk_set_secret mem psk (Some src) n
       = (S2N_SUCCESS, mem - 1, psk\<lparr>secret := take (unat n) src\<rparr>)"
  by (simp add: s2n_psk_set_secret_def realloc_ok memcpy_full unat_gt_0)

text \<open>
  Claim C7. \<^verbatim>\<open>s2n_psk_set_identity\<close> and \<^verbatim>\<open>s2n_psk_set_secret\<close> fail with
  \<^verbatim>\<open>S2N_ERR_INVALID_ARGUMENT\<close>, and change nothing, when the buffer is NULL or the size
  is 0. For a buffer \<open>src\<close> that holds at least \<open>n > 0\<close> bytes, and an allocator that
  grants the request, they succeed and the PSK's identity (secret) is exactly the \<open>n\<close>
  bytes of the buffer. The PSK holds the bytes as a value of its own: nothing links it to
  the caller's buffer afterwards.
\<close>

theorem s2n_psk_set_identity_secret:
  "(buf = None \<or> n = 0 \<longrightarrow>
      s2n_psk_set_identity mem psk buf n = (Inl S2N_ERR_INVALID_ARGUMENT, mem, psk)
    \<and> s2n_psk_set_secret mem psk buf n = (Inl S2N_ERR_INVALID_ARGUMENT, mem, psk))
   \<and> (n \<noteq> 0 \<and> unat n \<le> length src \<and> 0 < mem \<longrightarrow>
      s2n_psk_set_identity mem psk (Some src) n
        = (S2N_SUCCESS, mem - 1, psk\<lparr>identity := take (unat n) src\<rparr>)
    \<and> s2n_psk_set_secret mem psk (Some src) n
        = (S2N_SUCCESS, mem - 1, psk\<lparr>secret := take (unat n) src\<rparr>)
    \<and> length (take (unat n) src) = unat n)"
proof (intro conjI impI)
  assume "buf = None \<or> n = 0"
  then show "s2n_psk_set_identity mem psk buf n = (Inl S2N_ERR_INVALID_ARGUMENT, mem, psk)"
    by (auto simp: s2n_psk_set_identity_def split: option.splits)
next
  assume "buf = None \<or> n = 0"
  then show "s2n_psk_set_secret mem psk buf n = (Inl S2N_ERR_INVALID_ARGUMENT, mem, psk)"
    by (auto simp: s2n_psk_set_secret_def split: option.splits)
next
  assume "n \<noteq> 0 \<and> unat n \<le> length src \<and> 0 < mem"
  then show "s2n_psk_set_identity mem psk (Some src) n
        = (S2N_SUCCESS, mem - 1, psk\<lparr>identity := take (unat n) src\<rparr>)"
    by (simp add: set_identity_ok)
next
  assume "n \<noteq> 0 \<and> unat n \<le> length src \<and> 0 < mem"
  then show "s2n_psk_set_secret mem psk (Some src) n
        = (S2N_SUCCESS, mem - 1, psk\<lparr>secret := take (unat n) src\<rparr>)"
    by (simp add: set_secret_ok)
next
  assume "n \<noteq> 0 \<and> unat n \<le> length src \<and> 0 < mem"
  then show "length (take (unat n) src) = unat n"
    by simp
qed

text \<open>Claim C7 on a fresh PSK: a NULL buffer, a size of 0, and three bytes.\<close>

theorem s2n_psk_set_identity_secret_witness:
  "s2n_psk_set_identity 1 (s2n_psk_init S2N_PSK_TYPE_EXTERNAL) None 3
     = (Inl S2N_ERR_INVALID_ARGUMENT, 1, s2n_psk_init S2N_PSK_TYPE_EXTERNAL)
   \<and> s2n_psk_set_secret 1 (s2n_psk_init S2N_PSK_TYPE_EXTERNAL) (Some [7, 8, 9]) 0
     = (Inl S2N_ERR_INVALID_ARGUMENT, 1, s2n_psk_init S2N_PSK_TYPE_EXTERNAL)
   \<and> s2n_psk_set_identity 1 (s2n_psk_init S2N_PSK_TYPE_EXTERNAL) (Some [7, 8, 9]) 3
     = (S2N_SUCCESS, 0, (s2n_psk_init S2N_PSK_TYPE_EXTERNAL)\<lparr>identity := [7, 8, 9]\<rparr>)
   \<and> s2n_psk_set_secret 1 (s2n_psk_init S2N_PSK_TYPE_EXTERNAL) (Some [7, 8, 9]) 3
     = (S2N_SUCCESS, 0, (s2n_psk_init S2N_PSK_TYPE_EXTERNAL)\<lparr>secret := [7, 8, 9]\<rparr>)"
  using s2n_psk_set_identity_secret
      [where buf = None and n = 3 and mem = 1 and src = "[7, 8, 9]"
         and psk = "s2n_psk_init S2N_PSK_TYPE_EXTERNAL"]
    s2n_psk_set_identity_secret
      [where buf = "Some [7, 8, 9]" and n = 0 and mem = 1 and src = "[7, 8, 9]"
         and psk = "s2n_psk_init S2N_PSK_TYPE_EXTERNAL"]
  by simp

subsection \<open>The PSK list\<close>

lemma offered_psk_size_eq:
  "s2n_psk_offered_psk_size psk =
     (if offered_psk_size_spec psk \<le> UINT32_MAX then Inr (offered_psk_size_spec psk)
      else Inl S2N_ERR_INTEGER_OVERFLOW)"
  by (simp add: s2n_psk_offered_psk_size_def s2n_add_overflow_def offered_psk_size_spec_def)

lemma offered_psks_size_loop_eq:
  "i \<le> length (psk_list params) \<Longrightarrow> sz \<le> UINT32_MAX \<Longrightarrow>
   s2n_psk_parameters_offered_psks_size_loop params i sz =
     (if sz + (\<Sum>psk\<leftarrow>drop i (psk_list params). offered_psk_size_spec psk) \<le> UINT32_MAX
      then Inr (sz + (\<Sum>psk\<leftarrow>drop i (psk_list params). offered_psk_size_spec psk))
      else Inl S2N_ERR_INTEGER_OVERFLOW)"
proof (induction params i sz rule: s2n_psk_parameters_offered_psks_size_loop.induct)
  case (1 params i sz)
  show ?case
  proof (cases "i < length (psk_list params)")
    case False
    with "1.prems" show ?thesis
      by (subst s2n_psk_parameters_offered_psks_size_loop.simps) simp
  next
    case True
    then have dr: "drop i (psk_list params) = psk_list params ! i # drop (Suc i) (psk_list params)"
      by (simp add: Cons_nth_drop_Suc)
    show ?thesis
    proof (cases "offered_psk_size_spec (psk_list params ! i) \<le> UINT32_MAX
                  \<and> sz + offered_psk_size_spec (psk_list params ! i) \<le> UINT32_MAX")
      case False
      then show ?thesis
        apply (subst s2n_psk_parameters_offered_psks_size_loop.simps)
        using True
        by (auto simp: dr s2n_array_get_def offered_psk_size_eq s2n_add_overflow_def)
    next
      case ok: True
      have IH: "s2n_psk_parameters_offered_psks_size_loop params (i + 1)
                  (sz + offered_psk_size_spec (psk_list params ! i)) =
         (if sz + offered_psk_size_spec (psk_list params ! i)
               + (\<Sum>psk\<leftarrow>drop (i + 1) (psk_list params). offered_psk_size_spec psk) \<le> UINT32_MAX
          then Inr (sz + offered_psk_size_spec (psk_list params ! i)
               + (\<Sum>psk\<leftarrow>drop (i + 1) (psk_list params). offered_psk_size_spec psk))
          else Inl S2N_ERR_INTEGER_OVERFLOW)"
        using True ok
        by (intro "1.IH") (auto simp: s2n_array_get_def offered_psk_size_eq s2n_add_overflow_def)
      show ?thesis
        apply (subst s2n_psk_parameters_offered_psks_size_loop.simps)
        using True ok IH
        by (simp add: dr s2n_array_get_def offered_psk_size_eq s2n_add_overflow_def add.assoc)
    qed
  qed
qed

lemma offered_psks_size_eq:
  "s2n_psk_parameters_offered_psks_size params =
     (if offered_psks_size_spec (psk_list params) \<le> UINT32_MAX
      then Inr (offered_psks_size_spec (psk_list params))
      else Inl S2N_ERR_INTEGER_OVERFLOW)"
  by (simp add: s2n_psk_parameters_offered_psks_size_def offered_psks_size_loop_eq
      offered_psks_size_spec_def UINT32_MAX_def)

text \<open>
  Claim C4. \<^verbatim>\<open>s2n_psk_parameters_offered_psks_size\<close> returns the closed form of the
  specification whenever that sum fits a \<^verbatim>\<open>uint32_t\<close>, and fails with IntegerOverflow
  otherwise: no addition wraps around.
\<close>

theorem s2n_psk_parameters_offered_psks_size_closed_form:
  "s2n_psk_parameters_offered_psks_size params =
     (if offered_psks_size_spec (psk_list params) \<le> UINT32_MAX
      then Inr (offered_psks_size_spec (psk_list params))
      else Inl S2N_ERR_INTEGER_OVERFLOW)"
  by (rule offered_psks_size_eq)

text \<open>Claim C4 on a list of two PSKs: 4 + (7 + 1 + 32) + (7 + 2 + 48) bytes.\<close>

theorem s2n_psk_parameters_offered_psks_size_closed_form_witness:
  "s2n_psk_parameters_offered_psks_size
     \<lparr>psk_list = [example_psk_a, example_psk_bc], binder_list_size = 0\<rparr> = Inr 101"
  using s2n_psk_parameters_offered_psks_size_closed_form
      [of "\<lparr>psk_list = [example_psk_a, example_psk_bc], binder_list_size = 0\<rparr>"]
  by (simp add: offered_psks_size_spec_def offered_psk_size_spec_def example_psk_a_def
      example_psk_bc_def UINT32_MAX_def)

lemma memcmp_eq:
  "(length a = length b \<and> take (length a) a = take (length a) b) \<longleftrightarrow> a = b"
  "(length a = length b \<and> a = take (length a) b) \<longleftrightarrow> a = b"
  by auto

lemma check_duplicates_eq:
  "j \<le> length array \<Longrightarrow>
   append_psk_check_duplicates array input_psk j =
     (if \<exists>e \<in> set (drop j array). identity e = identity input_psk
      then Inl S2N_ERR_DUPLICATE_PSK_IDENTITIES else S2N_SUCCESS)"
proof (induction array input_psk j rule: append_psk_check_duplicates.induct)
  case (1 array input_psk j)
  show ?case
  proof (cases "j < length array")
    case False
    with "1.prems" show ?thesis
      by (subst append_psk_check_duplicates.simps) simp
  next
    case True
    then have dr: "drop j array = array ! j # drop (Suc j) array"
      by (simp add: Cons_nth_drop_Suc)
    show ?thesis
    proof (cases "identity (array ! j) = identity input_psk")
      case dup: True
      then show ?thesis
        apply (subst append_psk_check_duplicates.simps)
        using True by (simp add: dr s2n_array_get_def memcmp_eq)
    next
      case nodup: False
      have IH: "append_psk_check_duplicates array input_psk (j + 1) =
          (if \<exists>e \<in> set (drop (j + 1) array). identity e = identity input_psk
           then Inl S2N_ERR_DUPLICATE_PSK_IDENTITIES else S2N_SUCCESS)"
        using True nodup by (intro "1.IH") (auto simp: s2n_array_get_def memcmp_eq)
      show ?thesis
        apply (subst append_psk_check_duplicates.simps)
        using True IH nodup by (simp add: dr s2n_array_get_def memcmp_eq)
    qed
  qed
qed

lemma append_duplicate:
  "\<exists>e \<in> set (psk_list (psk_params conn)). identity e = identity input_psk \<Longrightarrow>
     s2n_connection_append_psk mem conn input_psk
       = (Inl S2N_ERR_DUPLICATE_PSK_IDENTITIES, mem, conn)"
  by (simp add: s2n_connection_append_psk_def check_duplicates_eq)

lemma insert_failure_unchanged:
  "s2n_array_insert_and_copy mem array idx el = (Inl e, mem', array') \<Longrightarrow> array' = array"
  by (auto simp: s2n_array_insert_and_copy_def split: if_splits)

lemma append_failure_unchanged:
  "s2n_connection_append_psk mem conn input_psk = (Inl e, mem', conn') \<Longrightarrow> conn' = conn"
  unfolding s2n_connection_append_psk_def Let_def
  by (auto split: sum.splits prod.splits dest!: insert_failure_unchanged)

text \<open>
  Claim C3. When the identity of the input PSK equals the identity of an entry of the
  connection's list, \<^verbatim>\<open>s2n_connection_append_psk\<close> fails with
  \<^verbatim>\<open>S2N_ERR_DUPLICATE_PSK_IDENTITIES\<close>; and whenever the function fails, for whatever
  reason, the connection, and so its PSK list, is what it was before the call.
\<close>

theorem s2n_connection_append_psk_duplicate_atomic:
  "((\<exists>e \<in> set (psk_list (psk_params conn)). identity e = identity input_psk) \<longrightarrow>
      s2n_connection_append_psk mem conn input_psk
        = (Inl S2N_ERR_DUPLICATE_PSK_IDENTITIES, mem, conn))
   \<and> (fst (s2n_connection_append_psk mem conn input_psk) \<noteq> S2N_SUCCESS \<longrightarrow>
        snd (snd (s2n_connection_append_psk mem conn input_psk)) = conn
      \<and> psk_list (psk_params (snd (snd (s2n_connection_append_psk mem conn input_psk))))
          = psk_list (psk_params conn))"
proof (intro conjI impI)
  assume "\<exists>e \<in> set (psk_list (psk_params conn)). identity e = identity input_psk"
  then show "s2n_connection_append_psk mem conn input_psk
        = (Inl S2N_ERR_DUPLICATE_PSK_IDENTITIES, mem, conn)"
    by (rule append_duplicate)
next
  assume f: "fst (s2n_connection_append_psk mem conn input_psk) \<noteq> S2N_SUCCESS"
  obtain r mem' conn' where a: "s2n_connection_append_psk mem conn input_psk = (r, mem', conn')"
    by (cases "s2n_connection_append_psk mem conn input_psk") auto
  with f obtain e where "r = Inl e" by (cases r) auto
  with a have "conn' = conn" by (auto dest: append_failure_unchanged)
  with a show "snd (snd (s2n_connection_append_psk mem conn input_psk)) = conn" by simp
  then show "psk_list (psk_params (snd (snd (s2n_connection_append_psk mem conn input_psk))))
          = psk_list (psk_params conn)" by simp
qed

text \<open>
  Claim C3 on a list that holds \<open>A\<close> and \<open>BC\<close>: appending \<open>BC\<close> once more is refused
  and the list is unchanged.
\<close>

theorem s2n_connection_append_psk_duplicate_atomic_witness:
  "(\<exists>e \<in> set (psk_list (psk_params (example_conn S2N_SERVER [example_psk_a, example_psk_bc]))).
       identity e = identity example_psk_bc)
   \<and> s2n_connection_append_psk 5 (example_conn S2N_SERVER [example_psk_a, example_psk_bc])
        example_psk_bc
      = (Inl S2N_ERR_DUPLICATE_PSK_IDENTITIES, 5,
         example_conn S2N_SERVER [example_psk_a, example_psk_bc])
   \<and> psk_list (psk_params (snd (snd (s2n_connection_append_psk 5
          (example_conn S2N_SERVER [example_psk_a, example_psk_bc]) example_psk_bc))))
      = [example_psk_a, example_psk_bc]"
proof -
  have dup: "\<exists>e \<in> set (psk_list (psk_params
                 (example_conn S2N_SERVER [example_psk_a, example_psk_bc]))).
               identity e = identity example_psk_bc"
    by (simp add: example_conn_def)
  show ?thesis
    using dup
      s2n_connection_append_psk_duplicate_atomic
        [of "example_conn S2N_SERVER [example_psk_a, example_psk_bc]" example_psk_bc 5]
    by (simp add: example_conn_def)
qed

lemma check_size_client:
  assumes "mode conn = S2N_CLIENT" and "prospective_size conn input_psk \<le> UINT32_MAX"
  shows "append_psk_check_size conn input_psk =
           (if prospective_size conn input_psk \<le> UINT16_MAX then S2N_SUCCESS
            else Inl S2N_ERR_OFFERED_PSKS_TOO_LONG)"
proof -
  from assms(2) have a: "offered_psks_size_spec (psk_list (psk_params conn)) \<le> UINT32_MAX"
    and b: "offered_psk_size_spec input_psk \<le> UINT32_MAX"
    and c: "prospective_size conn input_psk < 2 ^ 32"
    by (simp_all add: prospective_size_def UINT32_MAX_def)
  from c have "prospective_size conn input_psk mod 2 ^ 32 = prospective_size conn input_psk"
    by simp
  then show ?thesis
    using assms(1) a b
    by (simp add: append_psk_check_size_def offered_psks_size_eq
        offered_psk_size_eq prospective_size_def)
qed

lemma check_size_server:
  "mode conn = S2N_SERVER \<Longrightarrow> append_psk_check_size conn input_psk = S2N_SUCCESS"
  by (simp add: append_psk_check_size_def)

lemma word16_of_length:
  assumes "0 < length xs" and "length xs \<le> UINT16_MAX"
  shows "(word_of_nat (length xs) :: u16) \<noteq> 0"
    and "unat (word_of_nat (length xs) :: u16) = length xs"
proof -
  from assms(2) have lt: "length xs < 2 ^ 16"
    by (simp add: UINT16_MAX_def)
  then show u: "unat (word_of_nat (length xs) :: u16) = length xs"
    by (simp add: unsigned_of_nat take_bit_nat_eq_self)
  show "(word_of_nat (length xs) :: u16) \<noteq> 0"
  proof
    assume "(word_of_nat (length xs) :: u16) = 0"
    then have "unat (word_of_nat (length xs) :: u16) = 0" by simp
    with u assms(1) show False by simp
  qed
qed

lemma realloc_copy:
  "0 < mem \<Longrightarrow>
     (case s2n_realloc mem b (length src) of
        (Inl e, mem', b') \<Rightarrow> (Inl e, mem', f b')
      | (Inr u, mem', b') \<Rightarrow> g mem' (memcpy b' src (length src)))
     = g (if src = [] then mem else mem - 1) src"
  by (auto simp: s2n_realloc_def memcpy_def)

lemma clone_ok:
  assumes "cloneable psk" and "4 \<le> mem"
  shows "\<exists>mem'. s2n_psk_clone mem zero_psk psk = (S2N_SUCCESS, mem', psk) \<and> mem - 4 \<le> mem'"
proof -
  from assms(1) have i: "0 < length (identity psk)" "length (identity psk) \<le> UINT16_MAX"
    and s: "0 < length (secret psk)" "length (secret psk) \<le> UINT16_MAX"
    by (simp_all add: cloneable_def)
  note wi = word16_of_length [OF i] and ws = word16_of_length [OF s]
  from i s have bd: "blob_data (identity psk) = Some (identity psk)"
    "blob_data (secret psk) = Some (secret psk)"
    by (auto simp: blob_data_def)
  define p1 where "p1 = psk\<lparr>identity := identity zero_psk, secret := secret zero_psk,
     early_secret := early_secret zero_psk, early_data_config := early_data_config zero_psk\<rparr>"
  have s1: "s2n_psk_set_identity mem p1 (Some (identity psk)) (word_of_nat (length (identity psk)))
     = (S2N_SUCCESS, mem - 1, p1\<lparr>identity := identity psk\<rparr>)"
    using assms(2) wi by (simp add: set_identity_ok)
  have s2: "s2n_psk_set_secret (mem - 1) (p1\<lparr>identity := identity psk\<rparr>) (Some (secret psk))
       (word_of_nat (length (secret psk)))
     = (S2N_SUCCESS, mem - 1 - 1, p1\<lparr>identity := identity psk, secret := secret psk\<rparr>)"
    using assms(2) ws by (simp add: set_secret_ok)
  have m2: "0 < mem - 1 - 1" and m3: "0 < (if early_secret psk = [] then mem - 1 - 1 else mem - 1 - 1 - 1)"
    using assms(2) by auto
  have fin: "p1\<lparr>identity := identity psk, secret := secret psk, early_secret := early_secret psk,
        early_data_config := early_data_config psk\<rparr> = psk"
    by (simp add: p1_def)
  have "s2n_psk_clone mem zero_psk psk =
     (S2N_SUCCESS,
      (if early_data_config psk = [] then (if early_secret psk = [] then mem - 1 - 1 else mem - 1 - 1 - 1)
       else (if early_secret psk = [] then mem - 1 - 1 else mem - 1 - 1 - 1) - 1),
      psk)"
    unfolding s2n_psk_clone_def Let_def bd p1_def [symmetric] s1 s2n_early_data_config_clone_def
    apply (simp only: prod.case sum.case s2)
    apply (subst realloc_copy [OF m2])
    apply (subst realloc_copy [OF m3])
    apply (simp add: fin)
    done
  then show ?thesis
    by auto
qed


lemma append_no_duplicate:
  assumes "\<forall>e \<in> set (psk_list (psk_params conn)). identity e \<noteq> identity input_psk"
  shows "s2n_connection_append_psk mem conn input_psk =
     (case append_psk_check_size conn input_psk of
        Inl e \<Rightarrow> (Inl e, mem, conn)
      | Inr u \<Rightarrow>
          (case s2n_psk_clone mem zero_psk input_psk of
             (Inl e, mem1, new_psk) \<Rightarrow> (Inl S2N_ERR_INVALID_ARGUMENT, mem1, conn)
           | (Inr u, mem1, new_psk) \<Rightarrow>
               (case s2n_array_insert_and_copy mem1 (psk_list (psk_params conn))
                       (length (psk_list (psk_params conn))) new_psk of
                  (r, mem2, array') \<Rightarrow>
                    (r, mem2, conn\<lparr>psk_params := (psk_params conn)\<lparr>psk_list := array'\<rparr>\<rparr>))))"
  using assms by (simp add: s2n_connection_append_psk_def check_duplicates_eq Let_def)

lemma insert_not_too_long:
  "s2n_array_insert_and_copy mem array idx el = (Inl S2N_ERR_OFFERED_PSKS_TOO_LONG, mem', array')
     \<Longrightarrow> False"
  by (simp add: s2n_array_insert_and_copy_def split: if_splits)

text \<open>
  Claim C5, amended. Let the input PSK's identity be absent from the connection's list.
  On a client connection, when the prospective size (the closed form for the list, plus the
  new entry, plus the extension header) fits a \<^verbatim>\<open>uint32_t\<close>,
  \<^verbatim>\<open>s2n_connection_append_psk\<close> fails with \<^verbatim>\<open>S2N_ERR_OFFERED_PSKS_TOO_LONG\<close> exactly when
  that size exceeds 65535. On a server connection there is no such limit: the append of a
  PSK whose identity and secret are set succeeds, whatever the size, when the allocator
  grants its requests, and the list gains the PSK at its end.
\<close>

theorem s2n_connection_append_psk_size_guard:
  assumes "\<forall>e \<in> set (psk_list (psk_params conn)). identity e \<noteq> identity input_psk"
  shows "(mode conn = S2N_CLIENT \<and> prospective_size conn input_psk \<le> UINT32_MAX \<longrightarrow>
            (fst (s2n_connection_append_psk mem conn input_psk) = Inl S2N_ERR_OFFERED_PSKS_TOO_LONG
              \<longleftrightarrow> 65535 < prospective_size conn input_psk))
       \<and> (mode conn = S2N_SERVER \<and> cloneable input_psk \<and> 5 \<le> mem \<longrightarrow>
            fst (s2n_connection_append_psk mem conn input_psk) = S2N_SUCCESS
          \<and> psk_list (psk_params (snd (snd (s2n_connection_append_psk mem conn input_psk))))
              = psk_list (psk_params conn) @ [input_psk])"
proof (intro conjI impI)
  assume c: "mode conn = S2N_CLIENT \<and> prospective_size conn input_psk \<le> UINT32_MAX"
  show "fst (s2n_connection_append_psk mem conn input_psk) = Inl S2N_ERR_OFFERED_PSKS_TOO_LONG
          \<longleftrightarrow> 65535 < prospective_size conn input_psk"
  proof (cases "prospective_size conn input_psk \<le> UINT16_MAX")
    case True
    with c have "append_psk_check_size conn input_psk = S2N_SUCCESS"
      by (simp add: check_size_client)
    then have "fst (s2n_connection_append_psk mem conn input_psk)
                 \<noteq> Inl S2N_ERR_OFFERED_PSKS_TOO_LONG"
      by (auto simp: append_no_duplicate [OF assms] split: prod.splits sum.splits
          dest: insert_not_too_long)
    with True show ?thesis by (simp add: UINT16_MAX_def)
  next
    case False
    with c have "append_psk_check_size conn input_psk = Inl S2N_ERR_OFFERED_PSKS_TOO_LONG"
      by (simp add: check_size_client)
    with False show ?thesis
      by (simp add: append_no_duplicate [OF assms] UINT16_MAX_def)
  qed
next
  assume s: "mode conn = S2N_SERVER \<and> cloneable input_psk \<and> 5 \<le> mem"
  then have "cloneable input_psk" and "4 \<le> mem" by simp_all
  then obtain mem' where cl: "s2n_psk_clone mem zero_psk input_psk = (S2N_SUCCESS, mem', input_psk)"
    and m: "mem - 4 \<le> mem'"
    using clone_ok by blast
  from s m have "0 < mem'" by arith
  with s cl have ap: "s2n_connection_append_psk mem conn input_psk =
      (S2N_SUCCESS, mem' - 1,
       conn\<lparr>psk_params := (psk_params conn)\<lparr>psk_list := psk_list (psk_params conn) @ [input_psk]\<rparr>\<rparr>)"
    by (simp add: append_no_duplicate [OF assms] check_size_server s2n_array_insert_and_copy_def)
  show "fst (s2n_connection_append_psk mem conn input_psk) = S2N_SUCCESS"
    by (simp add: ap)
  show "psk_list (psk_params (snd (snd (s2n_connection_append_psk mem conn input_psk))))
          = psk_list (psk_params conn) @ [input_psk]"
    by (simp add: ap)
qed

text \<open>
  Claim C5 as stated fails on a client whose list holds a PSK with an identity of 40000
  bytes when the same PSK is appended again: the prospective size exceeds 65535, and the
  error is that of the duplicate check, which comes first. It also fails on a server for
  a PSK whose secret was never set: the clone is refused.
\<close>

theorem s2n_connection_append_psk_size_guard_counterexample:
  "mode (example_conn S2N_CLIENT [example_psk_long]) = S2N_CLIENT
   \<and> 65535 < prospective_size (example_conn S2N_CLIENT [example_psk_long]) example_psk_long
   \<and> fst (s2n_connection_append_psk 5 (example_conn S2N_CLIENT [example_psk_long]) example_psk_long)
       \<noteq> Inl S2N_ERR_OFFERED_PSKS_TOO_LONG
   \<and> fst (s2n_connection_append_psk 5 (example_conn S2N_SERVER []) example_psk_no_secret)
       \<noteq> S2N_SUCCESS"
proof -
  have "s2n_connection_append_psk 5 (example_conn S2N_CLIENT [example_psk_long]) example_psk_long
     = (Inl S2N_ERR_DUPLICATE_PSK_IDENTITIES, 5, example_conn S2N_CLIENT [example_psk_long])"
    by (rule append_duplicate) (simp add: example_conn_def)
  moreover have "65535 < prospective_size (example_conn S2N_CLIENT [example_psk_long]) example_psk_long"
    by (simp add: prospective_size_def example_conn_def example_psk_long_def example_psk_a_def
        offered_psks_size_spec_def offered_psk_size_spec_def S2N_EXTENSION_HEADER_LENGTH_def)
  moreover have "fst (s2n_connection_append_psk 5 (example_conn S2N_SERVER [])
            example_psk_no_secret)
       = Inl S2N_ERR_INVALID_ARGUMENT"
    by (simp add: append_no_duplicate example_conn_def check_size_server s2n_psk_clone_def
        s2n_psk_init_def zero_psk_def blob_data_def s2n_psk_set_secret_def
        example_psk_no_secret_def set_identity_ok unsigned_of_nat take_bit_nat_eq_self)
  ultimately show ?thesis
    by (simp add: example_conn_def)
qed

text \<open>
  Claim C5, amended, on a client and a server whose list holds the PSK of 40000 bytes:
  a short PSK passes the guard, a PSK of 30000 bytes is refused by the client and accepted
  by the server.
\<close>

theorem s2n_connection_append_psk_size_guard_witness:
  "identity example_psk_long \<noteq> identity example_psk_bc
   \<and> identity example_psk_long \<noteq> replicate 30000 0x42
   \<and> prospective_size (example_conn S2N_CLIENT [example_psk_long]) example_psk_bc = 40104
   \<and> fst (s2n_connection_append_psk 5 (example_conn S2N_CLIENT [example_psk_long]) example_psk_bc)
       \<noteq> Inl S2N_ERR_OFFERED_PSKS_TOO_LONG
   \<and> 65535 < prospective_size (example_conn S2N_CLIENT [example_psk_long])
               (example_psk_bc\<lparr>identity := replicate 30000 0x42\<rparr>)
   \<and> fst (s2n_connection_append_psk 5 (example_conn S2N_CLIENT [example_psk_long])
            (example_psk_bc\<lparr>identity := replicate 30000 0x42\<rparr>))
       = Inl S2N_ERR_OFFERED_PSKS_TOO_LONG
   \<and> fst (s2n_connection_append_psk 5 (example_conn S2N_SERVER [example_psk_long])
            (example_psk_bc\<lparr>identity := replicate 30000 0x42\<rparr>))
       = S2N_SUCCESS"
proof -
  have neq1: "replicate 40000 (0x41 :: u8) \<noteq> [0x42, 0x43]"
  proof
    assume "replicate 40000 (0x41 :: u8) = [0x42, 0x43]"
    then have "length (replicate 40000 (0x41 :: u8)) = length [0x42, 0x43 :: u8]"
      by (rule arg_cong)
    then show False by simp
  qed
  have neq2: "replicate 40000 (0x41 :: u8) \<noteq> replicate 30000 0x42"
  proof
    assume "replicate 40000 (0x41 :: u8) = replicate 30000 0x42"
    then have "length (replicate 40000 (0x41 :: u8)) = length (replicate 30000 (0x42 :: u8))"
      by (rule arg_cong)
    then show False by simp
  qed
  have nd1: "\<forall>e \<in> set (psk_list (psk_params (example_conn m [example_psk_long]))).
       identity e \<noteq> identity example_psk_bc" for m
    using neq1 by (simp add: example_conn_def example_psk_long_def example_psk_bc_def)
  have nd2: "\<forall>e \<in> set (psk_list (psk_params (example_conn m [example_psk_long]))).
       identity e \<noteq> identity (example_psk_bc\<lparr>identity := replicate 30000 0x42\<rparr>)" for m
    using neq2 by (simp add: example_conn_def example_psk_long_def)
  have p1: "prospective_size (example_conn S2N_CLIENT [example_psk_long]) example_psk_bc = 40104"
    by (simp add: prospective_size_def example_conn_def example_psk_long_def example_psk_a_def
        example_psk_bc_def offered_psks_size_spec_def offered_psk_size_spec_def
        S2N_EXTENSION_HEADER_LENGTH_def)
  have p2: "prospective_size (example_conn S2N_CLIENT [example_psk_long])
               (example_psk_bc\<lparr>identity := replicate 30000 0x42\<rparr>) = 70102"
    by (simp add: prospective_size_def example_conn_def example_psk_long_def example_psk_a_def
        example_psk_bc_def offered_psks_size_spec_def offered_psk_size_spec_def
        S2N_EXTENSION_HEADER_LENGTH_def)
  have cl: "cloneable (example_psk_bc\<lparr>identity := replicate 30000 0x42\<rparr>)"
    by (simp add: cloneable_def example_psk_bc_def UINT16_MAX_def)
  show ?thesis
    using neq1 neq2 p1 p2 cl
      s2n_connection_append_psk_size_guard [OF nd1 [of S2N_CLIENT], of 5]
      s2n_connection_append_psk_size_guard [OF nd2 [of S2N_CLIENT], of 5]
      s2n_connection_append_psk_size_guard [OF nd2 [of S2N_SERVER], of 5]
    by (simp add: example_conn_def UINT32_MAX_def example_psk_long_def example_psk_bc_def)
qed


subsection \<open>The binder\<close>

lemma length_blob_store: "length (blob_store b out) = length b"
  by (simp add: blob_store_def)

lemma calculate_binder_size_mismatch:
  assumes "keys_init_result cr (hmac_alg psk) = S2N_SUCCESS"
    and "\<not> (length binder_hash = s2n_hmac_digest_size (hmac_alg psk)
            \<and> length output_binder = s2n_hmac_digest_size (hmac_alg psk))"
  shows "s2n_psk_calculate_binder cr mem psk binder_hash output_binder
           = (Inl S2N_ERR_SIZE_MISMATCH, mem, psk, output_binder)"
  using assms by (auto simp: s2n_psk_calculate_binder_def s2n_tls13_keys_init_def)

lemma calculate_binder_success:
  assumes "s2n_psk_calculate_binder cr mem psk binder_hash output_binder
             = (S2N_SUCCESS, mem', psk', binder)"
  shows "length binder = s2n_hmac_digest_size (hmac_alg psk)"
    and "length binder_hash = s2n_hmac_digest_size (hmac_alg psk)"
    and "length output_binder = s2n_hmac_digest_size (hmac_alg psk)"
    and "keys_init_result cr (hmac_alg psk) = S2N_SUCCESS"
  using assms
  by (auto simp: s2n_psk_calculate_binder_def s2n_tls13_keys_init_def Let_def length_blob_store
      split: sum.splits prod.splits if_splits)

lemma example_binder:
  "s2n_psk_calculate_binder example_crypto (Suc m) example_psk_a (replicate 32 7) (replicate 32 0)
     = (S2N_SUCCESS, m, example_psk_a\<lparr>early_secret := replicate 32 1\<rparr>, replicate 32 4)"
  by (simp add: s2n_psk_calculate_binder_def s2n_tls13_keys_init_def example_crypto_def
      example_psk_a_def s2n_realloc_def blob_store_def)

text \<open>
  Claim C6. Once the key schedule context is initialised, \<^verbatim>\<open>s2n_psk_calculate_binder\<close>
  fails with SizeMismatch, and changes nothing, unless both the binder hash and the output
  blob have exactly the digest size of the PSK's HMAC algorithm; when it succeeds, the
  binder it produced has exactly that size: 28, 32 or 48 bytes.
\<close>

theorem s2n_psk_calculate_binder_sizes:
  assumes "keys_init_result cr (hmac_alg psk) = S2N_SUCCESS"
  shows "(\<not> (length binder_hash = s2n_hmac_digest_size (hmac_alg psk)
             \<and> length output_binder = s2n_hmac_digest_size (hmac_alg psk)) \<longrightarrow>
            s2n_psk_calculate_binder cr mem psk binder_hash output_binder
              = (Inl S2N_ERR_SIZE_MISMATCH, mem, psk, output_binder))
       \<and> (fst (s2n_psk_calculate_binder cr mem psk binder_hash output_binder) = S2N_SUCCESS \<longrightarrow>
            length (snd (snd (snd (s2n_psk_calculate_binder cr mem psk binder_hash output_binder))))
              = s2n_hmac_digest_size (hmac_alg psk))
       \<and> s2n_hmac_digest_size S2N_HMAC_SHA224 = 28
       \<and> s2n_hmac_digest_size S2N_HMAC_SHA256 = 32
       \<and> s2n_hmac_digest_size S2N_HMAC_SHA384 = 48"
proof (intro conjI impI)
  assume "\<not> (length binder_hash = s2n_hmac_digest_size (hmac_alg psk)
             \<and> length output_binder = s2n_hmac_digest_size (hmac_alg psk))"
  with assms show "s2n_psk_calculate_binder cr mem psk binder_hash output_binder
              = (Inl S2N_ERR_SIZE_MISMATCH, mem, psk, output_binder)"
    by (rule calculate_binder_size_mismatch)
next
  assume ok: "fst (s2n_psk_calculate_binder cr mem psk binder_hash output_binder) = S2N_SUCCESS"
  obtain r m p b where c: "s2n_psk_calculate_binder cr mem psk binder_hash output_binder = (r, m, p, b)"
    by (cases "s2n_psk_calculate_binder cr mem psk binder_hash output_binder") auto
  with ok have "s2n_psk_calculate_binder cr mem psk binder_hash output_binder = (S2N_SUCCESS, m, p, b)"
    by simp
  then have "length b = s2n_hmac_digest_size (hmac_alg psk)"
    by (rule calculate_binder_success)
  with c show "length (snd (snd (snd (s2n_psk_calculate_binder cr mem psk binder_hash output_binder))))
              = s2n_hmac_digest_size (hmac_alg psk)"
    by simp
qed simp_all

text \<open>
  Claim C6 for a SHA-256 PSK: a binder of 32 bytes; a binder hash of 31 bytes and an output
  blob of 33 bytes are refused.
\<close>

theorem s2n_psk_calculate_binder_sizes_witness:
  "keys_init_result example_crypto (hmac_alg example_psk_a) = S2N_SUCCESS
   \<and> fst (s2n_psk_calculate_binder example_crypto 1 example_psk_a (replicate 32 7) (replicate 32 0))
       = S2N_SUCCESS
   \<and> length (snd (snd (snd (s2n_psk_calculate_binder example_crypto 1 example_psk_a
                (replicate 32 7) (replicate 32 0))))) = 32
   \<and> s2n_psk_calculate_binder example_crypto 1 example_psk_a (replicate 31 7) (replicate 32 0)
       = (Inl S2N_ERR_SIZE_MISMATCH, 1, example_psk_a, replicate 32 0)
   \<and> s2n_psk_calculate_binder example_crypto 1 example_psk_a (replicate 32 7) (replicate 33 0)
       = (Inl S2N_ERR_SIZE_MISMATCH, 1, example_psk_a, replicate 33 0)"
proof -
  have new: "keys_init_result example_crypto (hmac_alg example_psk_a) = S2N_SUCCESS"
    by (simp add: example_crypto_def)
  have alg: "hmac_alg example_psk_a = S2N_HMAC_SHA256"
    by (simp add: example_psk_a_def)
  show ?thesis
    using new
      s2n_psk_calculate_binder_sizes [OF new, of "replicate 32 7" "replicate 32 0" 1]
      s2n_psk_calculate_binder_sizes [OF new, of "replicate 31 7" "replicate 32 0" 1]
      s2n_psk_calculate_binder_sizes [OF new, of "replicate 32 7" "replicate 33 0" 1]
    by (simp add: alg example_binder)
qed


subsection \<open>Binder verification\<close>

lemma flip_bit_neq:
  assumes "i < length b" and "k < 8"
  shows "flip_bit b i k \<noteq> b" and "length (flip_bit b i k) = length b"
proof -
  have nz: "(push_bit k 1 :: u8) \<noteq> 0"
    using assms(2) by (simp add: push_bit_eq_mult)
  have "(b ! i) XOR push_bit k 1 \<noteq> b ! i"
  proof
    assume "(b ! i) XOR push_bit k 1 = b ! i"
    then have "(b ! i) XOR ((b ! i) XOR push_bit k 1) = (b ! i) XOR (b ! i)"
      by simp
    then have "(push_bit k 1 :: u8) = 0"
      by (simp add: xor.assoc [symmetric])
    with nz show False by simp
  qed
  then have "flip_bit b i k ! i \<noteq> b ! i"
    using assms(1) by (simp add: flip_bit_def)
  then show "flip_bit b i k \<noteq> b" by auto
  show "length (flip_bit b i k) = length b" by (simp add: flip_bit_def)
qed

lemma verify_binder_eq:
  "s2n_psk_verify_binder cr mem conn psk pch cand =
     (case keys_init_result cr (hmac_alg psk) of
        Inl e \<Rightarrow> (Inl e, mem, psk)
      | Inr u \<Rightarrow>
          if \<not> length cand = s2n_hmac_digest_size (hmac_alg psk)
          then (Inl S2N_ERR_SIZE_MISMATCH, mem, psk)
          else
            (case s2n_psk_calculate_binder_hash cr conn (hmac_alg psk) pch
                    (s2n_tls13_key_blob (s2n_hmac_digest_size (hmac_alg psk))) of
               Inl e \<Rightarrow> (Inl e, mem, psk)
             | Inr h \<Rightarrow>
                 (case s2n_psk_calculate_binder cr mem psk h
                         (s2n_tls13_key_blob (s2n_hmac_digest_size (hmac_alg psk))) of
                    (Inl e, mem', psk', b) \<Rightarrow> (Inl e, mem', psk')
                  | (Inr u, mem', psk', b) \<Rightarrow>
                      if cand = b then (S2N_SUCCESS, mem', psk')
                      else (Inl S2N_ERR_BAD_MESSAGE, mem', psk'))))"
proof -
  have mv: "s2n_tls13_mac_verify
              \<lparr>keys_hmac_algorithm = hmac_alg psk, keys_size = s2n_hmac_digest_size (hmac_alg psk)\<rparr>
              b cand
            = (if cand = b then S2N_SUCCESS else Inl S2N_ERR_BAD_MESSAGE)"
    if "length cand = s2n_hmac_digest_size (hmac_alg psk)"
      and "s2n_psk_calculate_binder cr mem psk h
             (s2n_tls13_key_blob (s2n_hmac_digest_size (hmac_alg psk))) = (S2N_SUCCESS, mem', psk', b)"
    for h mem' psk' b
  proof -
    from that(2) have "length b = s2n_hmac_digest_size (hmac_alg psk)"
      by (rule calculate_binder_success)
    with that(1) show ?thesis
      by (auto simp: s2n_tls13_mac_verify_def s2n_constant_time_equals_def)
  qed
  show ?thesis
    unfolding s2n_psk_verify_binder_def s2n_tls13_keys_init_def
    by (auto split: sum.splits prod.splits simp: mv)
qed


lemma example_binder_hash:
  "s2n_psk_calculate_binder_hash example_crypto (example_conn S2N_SERVER [example_psk_a])
     S2N_HMAC_SHA256 [1, 2, 3, 4] (s2n_tls13_key_blob 32) = Inr (replicate 32 4)"
  by (simp add: s2n_psk_calculate_binder_hash_def example_crypto_def
      example_conn_def s2n_tls13_key_blob_def blob_store_def)

lemma example_expected_binder:
  "s2n_psk_calculate_binder example_crypto (Suc m) example_psk_a (replicate 32 4)
     (s2n_tls13_key_blob 32)
     = (S2N_SUCCESS, m, example_psk_a\<lparr>early_secret := replicate 32 1\<rparr>, replicate 32 7)"
  by (simp add: s2n_psk_calculate_binder_def s2n_tls13_keys_init_def example_crypto_def
      example_psk_a_def s2n_realloc_def blob_store_def s2n_tls13_key_blob_def)

lemma example_verify:
  "s2n_psk_verify_binder example_crypto (Suc m) (example_conn S2N_SERVER [example_psk_a])
     example_psk_a [1, 2, 3, 4] cand
   = (if \<not> length cand = 32 then (Inl S2N_ERR_SIZE_MISMATCH, Suc m, example_psk_a)
      else if cand = replicate 32 7
      then (S2N_SUCCESS, m, example_psk_a\<lparr>early_secret := replicate 32 1\<rparr>)
      else (Inl S2N_ERR_BAD_MESSAGE, m, example_psk_a\<lparr>early_secret := replicate 32 1\<rparr>))"
proof -
  have alg: "hmac_alg example_psk_a = S2N_HMAC_SHA256"
    by (simp add: example_psk_a_def)
  have new: "keys_init_result example_crypto S2N_HMAC_SHA256 = S2N_SUCCESS"
    by (simp add: example_crypto_def)
  show ?thesis
    by (simp add: verify_binder_eq alg new example_binder_hash example_expected_binder)
qed

text \<open>
  Claim C1, amended. \<^verbatim>\<open>s2n_psk_verify_binder\<close> succeeds exactly when the binder hash
  can be recomputed, \<^verbatim>\<open>s2n_psk_calculate_binder\<close> succeeds on it, and the candidate
  equals the binder so produced; in particular verifying the output of
  \<^verbatim>\<open>s2n_psk_calculate_binder\<close> succeeds. A candidate whose length is not the digest
  size fails with SizeMismatch, in the \<^verbatim>\<open>eq_check\<close> that precedes every computation.
  A candidate of the right length that differs from the expected binder, such as the
  expected binder with any single bit flipped, fails with \<^verbatim>\<open>S2N_ERR_BAD_MESSAGE\<close>.
\<close>

theorem s2n_psk_verify_binder_correct:
  fixes cr :: s2n_crypto and mem :: nat and conn :: s2n_connection and psk :: s2n_psk
    and pch cand :: bytes
  defines "n \<equiv> s2n_hmac_digest_size (hmac_alg psk)"
  defines "hash \<equiv> s2n_psk_calculate_binder_hash cr conn (hmac_alg psk) pch (s2n_tls13_key_blob n)"
  defines "compute \<equiv> (\<lambda>h. s2n_psk_calculate_binder cr mem psk h (s2n_tls13_key_blob n))"
  defines "verify \<equiv> (\<lambda>c. fst (s2n_psk_verify_binder cr mem conn psk pch c))"
  shows "(verify cand = S2N_SUCCESS \<longleftrightarrow>
            (\<exists>h. hash = Inr h \<and> fst (compute h) = S2N_SUCCESS
                 \<and> cand = snd (snd (snd (compute h)))))
       \<and> (keys_init_result cr (hmac_alg psk) = S2N_SUCCESS \<and> length cand \<noteq> n \<longrightarrow>
            verify cand = Inl S2N_ERR_SIZE_MISMATCH)
       \<and> (\<forall>h. hash = Inr h \<and> fst (compute h) = S2N_SUCCESS \<longrightarrow>
            (length cand = n \<and> cand \<noteq> snd (snd (snd (compute h))) \<longrightarrow>
               verify cand = Inl S2N_ERR_BAD_MESSAGE)
          \<and> (\<forall>i k. i < n \<and> k < 8 \<longrightarrow>
               verify (flip_bit (snd (snd (snd (compute h)))) i k) = Inl S2N_ERR_BAD_MESSAGE))"
proof -
  have cu: "s2n_psk_calculate_binder cr mem psk h (s2n_tls13_key_blob n) = compute h" for h
    by (simp add: compute_def)
  have ok: "length b = n \<and> keys_init_result cr (hmac_alg psk) = S2N_SUCCESS"
    if "compute h = (S2N_SUCCESS, m, p, b)" for h m p b
    using that calculate_binder_success [of cr mem psk h "s2n_tls13_key_blob n" m p b]
    by (simp add: compute_def n_def)
  have bad: "verify c = Inl S2N_ERR_BAD_MESSAGE"
    if "hash = Inr h" and "fst (compute h) = S2N_SUCCESS" and "length c = n"
      and "c \<noteq> snd (snd (snd (compute h)))" for h c
  proof -
    obtain r m p b where c: "compute h = (r, m, p, b)"
      by (cases "compute h") auto
    with that(2) have c': "compute h = (S2N_SUCCESS, m, p, b)" by simp
    from ok [OF c'] that(1,3,4) c' show ?thesis
      by (simp add: verify_def verify_binder_eq hash_def [symmetric] n_def [symmetric]
          cu)
  qed
  have iff: "verify cand = S2N_SUCCESS \<longleftrightarrow>
            (\<exists>h. hash = Inr h \<and> fst (compute h) = S2N_SUCCESS
                 \<and> cand = snd (snd (snd (compute h))))"
  proof
    assume v: "verify cand = S2N_SUCCESS"
    then show "\<exists>h. hash = Inr h \<and> fst (compute h) = S2N_SUCCESS
                 \<and> cand = snd (snd (snd (compute h)))"
      unfolding verify_def verify_binder_eq hash_def [symmetric] n_def [symmetric] cu
      by (auto split: sum.splits prod.splits if_splits)
  next
    assume "\<exists>h. hash = Inr h \<and> fst (compute h) = S2N_SUCCESS
                 \<and> cand = snd (snd (snd (compute h)))"
    then obtain h where h: "hash = Inr h" "fst (compute h) = S2N_SUCCESS"
      "cand = snd (snd (snd (compute h)))" by blast
    obtain r m p b where c: "compute h = (r, m, p, b)"
      by (cases "compute h") auto
    with h(2) have c': "compute h = (S2N_SUCCESS, m, p, b)" by simp
    from ok [OF c'] h c' show "verify cand = S2N_SUCCESS"
      by (simp add: verify_def verify_binder_eq hash_def [symmetric] n_def [symmetric]
          cu)
  qed
  have mismatch: "verify cand = Inl S2N_ERR_SIZE_MISMATCH"
    if "keys_init_result cr (hmac_alg psk) = S2N_SUCCESS" and "length cand \<noteq> n"
    using that by (simp add: verify_def verify_binder_eq n_def)
  have flip: "verify (flip_bit (snd (snd (snd (compute h)))) i k) = Inl S2N_ERR_BAD_MESSAGE"
    if "hash = Inr h" and "fst (compute h) = S2N_SUCCESS" and "i < n" and "k < 8" for h i k
  proof -
    obtain r m p b where c: "compute h = (r, m, p, b)"
      by (cases "compute h") auto
    with that(2) have c': "compute h = (S2N_SUCCESS, m, p, b)" by simp
    from ok [OF c'] that(3) have "i < length b" by simp
    from flip_bit_neq [OF this that(4)] ok [OF c'] c'
    show ?thesis
      by (intro bad [OF that(1,2)]) simp_all
  qed
  show ?thesis
    using iff mismatch bad flip by blast
qed


text \<open>
  Claim C1 as stated fails where it says that a candidate of another length is refused
  with BadMessage: the expected binder of the example verifies, and without its last byte
  it is refused with SizeMismatch.
\<close>

theorem s2n_psk_verify_binder_correct_counterexample:
  "fst (s2n_psk_verify_binder example_crypto 1 (example_conn S2N_SERVER [example_psk_a])
          example_psk_a [1, 2, 3, 4] (replicate 32 7)) = S2N_SUCCESS
   \<and> fst (s2n_psk_verify_binder example_crypto 1 (example_conn S2N_SERVER [example_psk_a])
          example_psk_a [1, 2, 3, 4] (butlast (replicate 32 7))) = Inl S2N_ERR_SIZE_MISMATCH
   \<and> fst (s2n_psk_verify_binder example_crypto 1 (example_conn S2N_SERVER [example_psk_a])
          example_psk_a [1, 2, 3, 4] (butlast (replicate 32 7))) \<noteq> Inl S2N_ERR_BAD_MESSAGE"
  by (simp add: example_verify butlast_conv_take)

text \<open>
  Claim C1, amended, on the example: the expected binder verifies, a candidate of 33 bytes
  is a size mismatch, and the expected binder with bit 3 of byte 5 flipped is a bad message.
\<close>

theorem s2n_psk_verify_binder_correct_witness:
  "keys_init_result example_crypto (hmac_alg example_psk_a) = S2N_SUCCESS
   \<and> fst (s2n_psk_verify_binder example_crypto 1 (example_conn S2N_SERVER [example_psk_a])
          example_psk_a [1, 2, 3, 4] (replicate 32 7)) = S2N_SUCCESS
   \<and> fst (s2n_psk_verify_binder example_crypto 1 (example_conn S2N_SERVER [example_psk_a])
          example_psk_a [1, 2, 3, 4] (replicate 33 7)) = Inl S2N_ERR_SIZE_MISMATCH
   \<and> fst (s2n_psk_verify_binder example_crypto 1 (example_conn S2N_SERVER [example_psk_a])
          example_psk_a [1, 2, 3, 4] (flip_bit (replicate 32 7) 5 3)) = Inl S2N_ERR_BAD_MESSAGE"
proof -
  have alg: "hmac_alg example_psk_a = S2N_HMAC_SHA256"
    by (simp add: example_psk_a_def)
  have new: "keys_init_result example_crypto S2N_HMAC_SHA256 = S2N_SUCCESS"
    by (simp add: example_crypto_def)
  show ?thesis
    using s2n_psk_verify_binder_correct
        [of example_crypto 1 "example_conn S2N_SERVER [example_psk_a]" example_psk_a
            "[1, 2, 3, 4]" "replicate 32 7"]
      s2n_psk_verify_binder_correct
        [of example_crypto 1 "example_conn S2N_SERVER [example_psk_a]" example_psk_a
            "[1, 2, 3, 4]" "replicate 33 7"]
    by (simp add: alg new example_binder_hash example_expected_binder)
qed


end
